theory Spec2Isabelle
  imports Main "HOL-Library.Multiset"
begin

section \<open>Connection descriptors, profiles and the store\<close>

text \<open>
  The dispatcher of \<^verbatim>\<open>dispatchers/libdispatcher.go\<close> works on pointers: a profile is
  handed in as \<^verbatim>\<open>*engine.DispatcherProfile\<close>, a connection pool is a Go slice (a view of
  a backing array that \<^verbatim>\<open>Sort\<close> permutes in place), and every method of
  \<^verbatim>\<open>WeightDispatcher\<close> has a pointer receiver. Several properties of the package are
  about which of these objects share storage, so the embedding keeps an explicit store:
  typed maps from addresses to profiles, to backing arrays and to dispatcher objects.
  Address \<open>0\<close> is Go's \<^verbatim>\<open>nil\<close>; a dereference of it panics.
\<close>

type_synonym addr = nat

definition nil :: addr where
  "nil = 0"

text \<open>
  Modelled from the spec: \<^verbatim>\<open>engine.DispatcherConn\<close> is declared in the \<^verbatim>\<open>engine\<close> package,
  whose source is not among the files at hand. The spec gives the consumed shape of a
  connection descriptor as \<^verbatim>\<open>{ID: string, Weight: number}\<close>, immutable once part of a pool.
  The weight is any linearly ordered numeric type \<open>'w\<close>.
\<close>

record 'w DispatcherConn =
  ID :: string
  Weight :: 'w

text \<open>
  Modelled from the spec: \<^verbatim>\<open>engine.DispatcherProfile\<close> (absent \<^verbatim>\<open>engine\<close> package) is a
  connection pool plus a \<^verbatim>\<open>Strategy: string\<close> field. The code reads the fields \<^verbatim>\<open>Conns\<close> and
  \<^verbatim>\<open>Strategy\<close> only. \<^verbatim>\<open>Conns\<close> is a slice of type \<^verbatim>\<open>engine.DispatcherConns\<close>, here the
  address of its backing array; a \<^verbatim>\<open>nil\<close> slice behaves as an empty one for every operation
  used below (sorting, cloning, \<^verbatim>\<open>len\<close>, indexing) and is represented by an empty array.
\<close>

record DispatcherProfile =
  Conns :: addr
  Strategy :: string

text \<open>
  \<^verbatim>\<open>type WeightDispatcher struct { sync.RWMutex; conns engine.DispatcherConns; nextConnIdx int }\<close>.
  The embedding is sequential: every method runs to completion, so the lock it takes
  and releases around its body has no effect and is not represented.
\<close>

record WeightDispatcher =
  conns :: addr
  nextConnIdx :: int

record 'w heap =
  profiles :: "addr \<Rightarrow> DispatcherProfile"
  arrays :: "addr \<Rightarrow> 'w DispatcherConn list"
  arrays_count :: nat
  dispatchers :: "addr \<Rightarrow> WeightDispatcher"
  dispatchers_count :: nat

text \<open>
  Backing arrays and dispatcher objects are allocated at the addresses
  \<open>1, 2, \<dots>\<close> of their own map; the counters hold the last address handed out, so an
  allocation never returns \<^verbatim>\<open>nil\<close> nor an address in use.
\<close>

datatype panic = NilPointerDereference | IndexOutOfRange

definition pool :: "'w heap \<Rightarrow> addr \<Rightarrow> 'w DispatcherConn list" where
  "pool h wd = arrays h (conns (dispatchers h wd))"

definition profile_pool :: "'w heap \<Rightarrow> addr \<Rightarrow> 'w DispatcherConn list" where
  "profile_pool h pfl = arrays h (Conns (profiles h pfl))"

section \<open>The engine's helpers on connection pools\<close>

text \<open>
  Modelled from the spec: \<^verbatim>\<open>DispatcherConns.Sort\<close> belongs to the absent \<^verbatim>\<open>engine\<close>
  package. The spec fixes its result: a stable sort by weight descending, ties broken
  by original (declaration) order. \<open>insert_conn\<close> puts a descriptor, declared before all
  of an already ordered list, in front of the first descriptor whose weight is not
  larger than its own.
\<close>

fun insert_conn :: "('w::linorder) DispatcherConn \<Rightarrow> 'w DispatcherConn list \<Rightarrow> 'w DispatcherConn list" where
  "insert_conn c [] = [c]"
| "insert_conn c (d # ds) =
     (if Weight d \<le> Weight c then c # d # ds else d # insert_conn c ds)"

text \<open>
  Modelled from the spec: the order \<^verbatim>\<open>DispatcherConns.Sort\<close> (absent \<^verbatim>\<open>engine\<close> package)
  produces, as a function on the sequence of descriptors.
\<close>

definition sort_conns :: "('w::linorder) DispatcherConn list \<Rightarrow> 'w DispatcherConn list" where
  "sort_conns cs = foldr insert_conn cs []"

text \<open>
  Modelled from the spec: the effect of \<^verbatim>\<open>DispatcherConns.Sort\<close> (absent \<^verbatim>\<open>engine\<close> package)
  on the store. The callers write \<^verbatim>\<open>pfl.Conns.Sort()\<close> and use no result, so the method
  reorders the backing array of the slice it is called on.
\<close>

definition Sort :: "('w::linorder) heap \<Rightarrow> addr \<Rightarrow> 'w heap" where
  "Sort h s = h\<lparr>arrays := (arrays h)(s := sort_conns (arrays h s))\<rparr>"

text \<open>
  Modelled from the spec: the copy of one descriptor made by the deep copy of a pool
  (\<^verbatim>\<open>DispatcherConn.Clone\<close>, absent \<^verbatim>\<open>engine\<close> package).
\<close>

definition clone_conn :: "'w DispatcherConn \<Rightarrow> 'w DispatcherConn" where
  "clone_conn c = \<lparr>ID = ID c, Weight = Weight c\<rparr>"

text \<open>
  Modelled from the spec: \<^verbatim>\<open>DispatcherConns.Clone\<close> (absent \<^verbatim>\<open>engine\<close> package) returns a
  deep copy of the pool: a newly allocated backing array holding a copy of every
  descriptor.
\<close>

definition Clone :: "'w heap \<Rightarrow> addr \<Rightarrow> 'w heap \<times> addr" where
  "Clone h s =
     (let c = Suc (arrays_count h)
      in (h\<lparr>arrays := (arrays h)(c := map clone_conn (arrays h s)), arrays_count := c\<rparr>, c))"

section \<open>The dispatcher\<close>

text \<open>
  \<^verbatim>\<open>&WeightDispatcher{conns: c}\<close>: a new object whose cursor has Go's zero value.
\<close>

definition new_WeightDispatcher :: "'w heap \<Rightarrow> addr \<Rightarrow> 'w heap \<times> addr" where
  "new_WeightDispatcher h c =
     (let d = Suc (dispatchers_count h)
      in (h\<lparr>dispatchers := (dispatchers h)(d := \<lparr>conns = c, nextConnIdx = 0\<rparr>),
             dispatchers_count := d\<rparr>, d))"

text \<open>
  \<^verbatim>\<open>newDispatcher\<close> returns the pair \<^verbatim>\<open>(d Dispatcher, err error)\<close>; both are named results
  and start as \<^verbatim>\<open>nil\<close>. The error is represented by its message. The constant
  \<^verbatim>\<open>utils.MetaWeight\<close> is declared in the absent \<^verbatim>\<open>utils\<close> package and is a parameter.
\<close>

definition newDispatcher ::
    "string \<Rightarrow> ('w::linorder) heap \<Rightarrow> addr \<Rightarrow> panic + ('w heap \<times> addr \<times> string option)" where
  "newDispatcher MetaWeight h pfl =
     (if pfl = nil then Inl NilPointerDereference
      else
        let h1 = Sort h (Conns (profiles h pfl)) in
        if Strategy (profiles h1 pfl) = MetaWeight then
          (let (h2, c) = Clone h1 (Conns (profiles h1 pfl));
               (h3, d) = new_WeightDispatcher h2 c
           in Inr (h3, d, None))
        else
          Inr (h1, nil,
               Some (''unsupported dispatch strategy: <'' @ Strategy (profiles h1 pfl) @ ''>'')))"

text \<open>
  \<^verbatim>\<open>incrNextConnIdx\<close>: the cursor is a Go \<^verbatim>\<open>int\<close>. Its only caller increments it after a
  successful index into the pool, so the incremented value is at most the pool's length
  and the machine addition cannot overflow; it is modelled on unbounded integers.
\<close>

definition incrNextConnIdx :: "'w heap \<Rightarrow> addr \<Rightarrow> panic + 'w heap" where
  "incrNextConnIdx h wd =
     (if wd = nil then Inl NilPointerDereference
      else
        let w = dispatchers h wd;
            w1 = w\<lparr>nextConnIdx := nextConnIdx w + 1\<rparr>;
            w2 = (if nextConnIdx w1 > int (length (arrays h (conns w1))) - 1
                  then w1\<lparr>nextConnIdx := 0\<rparr> else w1)
        in Inr (h\<lparr>dispatchers := (dispatchers h)(wd := w2)\<rparr>))"

text \<open>
  \<^verbatim>\<open>SetProfile\<close> sorts the profile's pool first (a \<^verbatim>\<open>nil\<close> profile panics there), then takes
  the dispatcher's lock (a \<^verbatim>\<open>nil\<close> receiver panics there), stores a clone of the pool in
  \<^verbatim>\<open>wd.conns\<close> and sets \<^verbatim>\<open>wd.nextConnIdx\<close> to 0.
\<close>

definition SetProfile :: "('w::linorder) heap \<Rightarrow> addr \<Rightarrow> addr \<Rightarrow> panic + 'w heap" where
  "SetProfile h wd pfl =
     (if pfl = nil then Inl NilPointerDereference
      else
        let h1 = Sort h (Conns (profiles h pfl)) in
        if wd = nil then Inl NilPointerDereference
        else
          let (h2, c) = Clone h1 (Conns (profiles h1 pfl));
              h3 = h2\<lparr>dispatchers := (dispatchers h2)(wd := (dispatchers h2 wd)\<lparr>conns := c\<rparr>)\<rparr>;
              h4 = h3\<lparr>dispatchers := (dispatchers h3)(wd := (dispatchers h3 wd)\<lparr>nextConnIdx := 0\<rparr>)\<rparr>
          in Inr h4)"

text \<open>
  \<^verbatim>\<open>GetInstance\<close> returns \<^verbatim>\<open>&WeightDispatcher{conns: wd.conns.Clone()}\<close>: a new dispatcher on a
  clone of the receiver's pool; the receiver is only read.
\<close>

definition GetInstance :: "'w heap \<Rightarrow> addr \<Rightarrow> panic + ('w heap \<times> addr)" where
  "GetInstance h wd =
     (if wd = nil then Inl NilPointerDereference
      else
        let (h1, c) = Clone h (conns (dispatchers h wd));
            (h2, wdInst) = new_WeightDispatcher h1 c
        in Inr (h2, wdInst))"

text \<open>
  \<^verbatim>\<open>connID = wd.conns[wd.nextConnIdx].ID\<close>: Go checks the index against the slice's
  length and panics when it is negative or not below it.
\<close>

definition NextConnID :: "'w heap \<Rightarrow> addr \<Rightarrow> panic + ('w heap \<times> string)" where
  "NextConnID h wd =
     (if wd = nil then Inl NilPointerDereference
      else
        let cs = arrays h (conns (dispatchers h wd));
            i = nextConnIdx (dispatchers h wd)
        in if 0 \<le> i \<and> i < int (length cs) then
             (case incrNextConnIdx h wd of
                Inl p \<Rightarrow> Inl p
              | Inr h' \<Rightarrow> Inr (h', ID (cs ! nat i)))
           else Inl IndexOutOfRange)"

text \<open>\<^verbatim>\<open>MaxConns\<close> returns \<^verbatim>\<open>len(wd.conns)\<close>.\<close>

definition MaxConns :: "'w heap \<Rightarrow> addr \<Rightarrow> panic + int" where
  "MaxConns h wd =
     (if wd = nil then Inl NilPointerDereference
      else Inr (int (length (arrays h (conns (dispatchers h wd))))))"

section \<open>Callers\<close>

text \<open>
  A caller's retry loop: \<open>n\<close> successive \<^verbatim>\<open>NextConnID\<close> calls on one dispatcher, collecting the
  identifiers in the order returned. A panic of any call ends the loop.
\<close>

fun NextConnIDs :: "nat \<Rightarrow> 'w heap \<Rightarrow> addr \<Rightarrow> panic + ('w heap \<times> string list)" where
  "NextConnIDs 0 h wd = Inr (h, [])"
| "NextConnIDs (Suc n) h wd =
     (case NextConnID h wd of
        Inl p \<Rightarrow> Inl p
      | Inr (h', c) \<Rightarrow>
          (case NextConnIDs n h' wd of
             Inl p \<Rightarrow> Inl p
           | Inr (h'', cs) \<Rightarrow> Inr (h'', c # cs)))"

text \<open>
  Arbitrary sequences of calls into the package, each naming the dispatcher (and the
  profile) it is applied to. Results other than the store are dropped.
\<close>

datatype call =
    CallNewDispatcher addr
  | CallSetProfile addr addr
  | CallGetInstance addr
  | CallNextConnID addr
  | CallMaxConns addr

fun exec_call :: "string \<Rightarrow> ('w::linorder) heap \<Rightarrow> call \<Rightarrow> panic + 'w heap" where
  "exec_call mw h (CallNewDispatcher pfl) =
     (case newDispatcher mw h pfl of Inl p \<Rightarrow> Inl p | Inr (h', d, err) \<Rightarrow> Inr h')"
| "exec_call mw h (CallSetProfile wd pfl) = SetProfile h wd pfl"
| "exec_call mw h (CallGetInstance wd) =
     (case GetInstance h wd of Inl p \<Rightarrow> Inl p | Inr (h', d) \<Rightarrow> Inr h')"
| "exec_call mw h (CallNextConnID wd) =
     (case NextConnID h wd of Inl p \<Rightarrow> Inl p | Inr (h', c) \<Rightarrow> Inr h')"
| "exec_call mw h (CallMaxConns wd) =
     (case MaxConns h wd of Inl p \<Rightarrow> Inl p | Inr n \<Rightarrow> Inr h)"

fun exec_calls :: "string \<Rightarrow> ('w::linorder) heap \<Rightarrow> call list \<Rightarrow> panic + 'w heap" where
  "exec_calls mw h [] = Inr h"
| "exec_calls mw h (c # cs) =
     (case exec_call mw h c of Inl p \<Rightarrow> Inl p | Inr h' \<Rightarrow> exec_calls mw h' cs)"

text \<open>
  A dispatcher object is live when it has been allocated. The cursor of a dispatcher is
  in range when it is a valid index into the dispatcher's current pool.
\<close>

definition live :: "'w heap \<Rightarrow> addr \<Rightarrow> bool" where
  "live h wd \<longleftrightarrow> wd \<noteq> nil \<and> wd \<le> dispatchers_count h"

definition cursor_ok :: "'w heap \<Rightarrow> addr \<Rightarrow> bool" where
  "cursor_ok h wd \<longleftrightarrow>
     0 \<le> nextConnIdx (dispatchers h wd) \<and> nextConnIdx (dispatchers h wd) < int (length (pool h wd))"

text \<open>Weight descending: no descriptor is followed by one of larger weight.\<close>

definition weight_descending :: "('w::linorder) DispatcherConn list \<Rightarrow> bool" where
  "weight_descending cs = sorted_wrt (\<lambda>a b. Weight b \<le> Weight a) cs"

text \<open>
  The store is well formed for the dispatchers when every allocated dispatcher holds an
  allocated backing array and a cursor in range.
\<close>

definition selectors_ok :: "'w heap \<Rightarrow> bool" where
  "selectors_ok h \<longleftrightarrow>
     (\<forall>wd \<in> {1..dispatchers_count h}.
        conns (dispatchers h wd) \<le> arrays_count h \<and> cursor_ok h wd)"

text \<open>
  A call is admissible in a store when the dispatcher it is applied to is live and the
  profile it passes is a non-\<^verbatim>\<open>nil\<close> profile with at least one connection.
\<close>

fun admissible :: "'w heap \<Rightarrow> call \<Rightarrow> bool" where
  "admissible h (CallNewDispatcher pfl) \<longleftrightarrow> pfl \<noteq> nil \<and> profile_pool h pfl \<noteq> []"
| "admissible h (CallSetProfile wd pfl) \<longleftrightarrow>
     live h wd \<and> pfl \<noteq> nil \<and> profile_pool h pfl \<noteq> []"
| "admissible h (CallGetInstance wd) \<longleftrightarrow> live h wd"
| "admissible h (CallNextConnID wd) \<longleftrightarrow> live h wd"
| "admissible h (CallMaxConns wd) \<longleftrightarrow> live h wd"

fun admissible_calls :: "string \<Rightarrow> ('w::linorder) heap \<Rightarrow> call list \<Rightarrow> bool" where
  "admissible_calls mw h [] \<longleftrightarrow> True"
| "admissible_calls mw h (c # cs) \<longleftrightarrow>
     admissible h c \<and>
     (case exec_call mw h c of Inl p \<Rightarrow> True | Inr h' \<Rightarrow> admissible_calls mw h' cs)"

text \<open>
  The weaker conditions that hold whatever profiles are applied: a call is callable when
  the dispatcher it is applied to is live and the profile it passes is not \<^verbatim>\<open>nil\<close>, and
  the dispatchers of a store are valid when every allocated dispatcher holds an allocated
  backing array and, if its pool is non-empty, a cursor in range.
\<close>

fun callable :: "'w heap \<Rightarrow> call \<Rightarrow> bool" where
  "callable h (CallNewDispatcher pfl) \<longleftrightarrow> pfl \<noteq> nil"
| "callable h (CallSetProfile wd pfl) \<longleftrightarrow> live h wd \<and> pfl \<noteq> nil"
| "callable h (CallGetInstance wd) \<longleftrightarrow> live h wd"
| "callable h (CallNextConnID wd) \<longleftrightarrow> live h wd"
| "callable h (CallMaxConns wd) \<longleftrightarrow> live h wd"

fun callable_calls :: "string \<Rightarrow> ('w::linorder) heap \<Rightarrow> call list \<Rightarrow> bool" where
  "callable_calls mw h [] \<longleftrightarrow> True"
| "callable_calls mw h (c # cs) \<longleftrightarrow>
     callable h c \<and>
     (case exec_call mw h c of Inl p \<Rightarrow> True | Inr h' \<Rightarrow> callable_calls mw h' cs)"

definition selectors_valid :: "'w heap \<Rightarrow> bool" where
  "selectors_valid h \<longleftrightarrow>
     (\<forall>wd \<in> {1..dispatchers_count h}.
        conns (dispatchers h wd) \<le> arrays_count h \<and>
        (pool h wd \<noteq> [] \<longrightarrow> cursor_ok h wd))"

text \<open>
  A call leaves the dispatcher \<open>b\<close> alone when it is not a mutation of \<open>b\<close>
  (\<^verbatim>\<open>SetProfile\<close> or \<^verbatim>\<open>NextConnID\<close> on \<open>b\<close>) and the profile it passes, if any, does not
  share its backing array with \<open>b\<close>'s pool. The field \<^verbatim>\<open>conns\<close> is unexported and is
  only ever assigned a fresh clone, so no profile of a caller can share it.
\<close>

fun leaves_alone :: "'w heap \<Rightarrow> addr \<Rightarrow> call \<Rightarrow> bool" where
  "leaves_alone h b (CallNewDispatcher pfl) \<longleftrightarrow>
     Conns (profiles h pfl) \<noteq> conns (dispatchers h b)"
| "leaves_alone h b (CallSetProfile wd pfl) \<longleftrightarrow>
     wd \<noteq> b \<and> Conns (profiles h pfl) \<noteq> conns (dispatchers h b)"
| "leaves_alone h b (CallGetInstance wd) \<longleftrightarrow> True"
| "leaves_alone h b (CallNextConnID wd) \<longleftrightarrow> wd \<noteq> b"
| "leaves_alone h b (CallMaxConns wd) \<longleftrightarrow> True"

text \<open>The store \<open>h\<close> with the cursor of the dispatcher \<open>wd\<close> set to \<open>j\<close>.\<close>

definition with_cursor :: "'w heap \<Rightarrow> addr \<Rightarrow> int \<Rightarrow> 'w heap" where
  "with_cursor h wd j =
     h\<lparr>dispatchers := (dispatchers h)(wd := (dispatchers h wd)\<lparr>nextConnIdx := j\<rparr>)\<rparr>"

section \<open>Example stores\<close>

text \<open>
  The profile of the spec's example, \<^verbatim>\<open>[{A,10},{B,20},{C,20}]\<close> (profile 1), a profile with
  no connection (profile 2), a profile naming another strategy (profile 3) and a second
  weighted profile (profile 4), before any dispatcher exists.
\<close>

definition example_profiles :: "addr \<Rightarrow> DispatcherProfile" where
  "example_profiles =
     (\<lambda>_. \<lparr>Conns = 0, Strategy = []\<rparr>)
       (1 := \<lparr>Conns = 1, Strategy = ''*weight''\<rparr>,
        2 := \<lparr>Conns = 2, Strategy = ''*weight''\<rparr>,
        3 := \<lparr>Conns = 1, Strategy = ''*random''\<rparr>,
        4 := \<lparr>Conns = 3, Strategy = ''*weight''\<rparr>)"

definition example_heap :: "int heap" where
  "example_heap =
     \<lparr>profiles = example_profiles,
      arrays = (\<lambda>_. [])
        (1 := [\<lparr>ID = ''A'', Weight = 10\<rparr>, \<lparr>ID = ''B'', Weight = 20\<rparr>,
               \<lparr>ID = ''C'', Weight = 20\<rparr>],
         2 := [],
         3 := [\<lparr>ID = ''D'', Weight = 5\<rparr>, \<lparr>ID = ''E'', Weight = 7\<rparr>]),
      arrays_count = 3,
      dispatchers = (\<lambda>_. \<lparr>conns = 0, nextConnIdx = 0\<rparr>),
      dispatchers_count = 0\<rparr>"

text \<open>
  The store once \<^verbatim>\<open>newDispatcher\<close> has built dispatcher 1 from profile 1 and the dispatcher
  has answered two \<^verbatim>\<open>NextConnID\<close> calls.
\<close>

definition example_selector_heap :: "int heap" where
  "example_selector_heap =
     \<lparr>profiles = example_profiles,
      arrays = (\<lambda>_. [])
        (1 := [\<lparr>ID = ''B'', Weight = 20\<rparr>, \<lparr>ID = ''C'', Weight = 20\<rparr>,
               \<lparr>ID = ''A'', Weight = 10\<rparr>],
         2 := [],
         3 := [\<lparr>ID = ''D'', Weight = 5\<rparr>, \<lparr>ID = ''E'', Weight = 7\<rparr>],
         4 := [\<lparr>ID = ''B'', Weight = 20\<rparr>, \<lparr>ID = ''C'', Weight = 20\<rparr>,
               \<lparr>ID = ''A'', Weight = 10\<rparr>]),
      arrays_count = 4,
      dispatchers = (\<lambda>_. \<lparr>conns = 0, nextConnIdx = 0\<rparr>)(1 := \<lparr>conns = 4, nextConnIdx = 2\<rparr>),
      dispatchers_count = 1\<rparr>"

text \<open>
  The store once \<^verbatim>\<open>newDispatcher\<close> has built dispatcher 1 from the empty profile 2 in
  \<open>example_heap\<close>, and the store once \<^verbatim>\<open>SetProfile\<close> has applied the empty profile 2 to
  dispatcher 1 of \<open>example_selector_heap\<close>.
\<close>

definition example_empty_selector_heap :: "int heap" where
  "example_empty_selector_heap =
     example_heap
       \<lparr>arrays := (arrays example_heap)(2 := [], 4 := []),
        arrays_count := 4,
        dispatchers := (dispatchers example_heap)(1 := \<lparr>conns = 4, nextConnIdx = 0\<rparr>),
        dispatchers_count := 1\<rparr>"

definition example_emptied_heap :: "int heap" where
  "example_emptied_heap =
     example_selector_heap
       \<lparr>arrays := (arrays example_selector_heap)(2 := [], 5 := []),
        arrays_count := 5,
        dispatchers := (dispatchers example_selector_heap)(1 := \<lparr>conns = 5, nextConnIdx = 0\<rparr>)\<rparr>"

text \<open>
  The store once dispatcher 1 of \<open>example_selector_heap\<close> has answered two more
  \<^verbatim>\<open>NextConnID\<close> calls and \<^verbatim>\<open>GetInstance\<close> has cloned it into dispatcher 2.
\<close>

definition example_clone_heap :: "int heap" where
  "example_clone_heap =
     (with_cursor example_selector_heap 1 1)
       \<lparr>arrays := (arrays example_selector_heap)
          (5 := [\<lparr>ID = ''B'', Weight = 20\<rparr>, \<lparr>ID = ''C'', Weight = 20\<rparr>,
                 \<lparr>ID = ''A'', Weight = 10\<rparr>]),
        arrays_count := 5,
        dispatchers := (dispatchers (with_cursor example_selector_heap 1 1))
          (2 := \<lparr>conns = 5, nextConnIdx = 0\<rparr>),
        dispatchers_count := 2\<rparr>"

section \<open>Properties of the modelled helpers\<close>

lemma clone_conn_id: "clone_conn c = c"
  by (simp add: clone_conn_def)

lemma length_insert_conn: "length (insert_conn c ds) = Suc (length ds)"
  by (induction ds) auto

lemma length_sort_conns: "length (sort_conns cs) = length cs"
  by (induction cs) (auto simp: sort_conns_def length_insert_conn)

lemma mset_insert_conn: "mset (insert_conn c ds) = add_mset c (mset ds)"
  by (induction ds) auto

lemma mset_sort_conns: "mset (sort_conns cs) = mset cs"
  by (induction cs) (auto simp: sort_conns_def mset_insert_conn)

lemma set_insert_conn: "set (insert_conn c ds) = insert c (set ds)"
  by (induction ds) auto

lemma set_sort_conns: "set (sort_conns cs) = set cs"
  by (induction cs) (auto simp: sort_conns_def set_insert_conn)

lemma sort_conns_Cons: "sort_conns (c # cs) = insert_conn c (sort_conns cs)"
  by (simp add: sort_conns_def)

lemma sort_conns_Nil: "sort_conns [] = []"
  by (simp add: sort_conns_def)

lemma descending_insert_conn:
  "weight_descending ds \<Longrightarrow> weight_descending (insert_conn c ds)"
  unfolding weight_descending_def
  by (induction ds) (auto simp: set_insert_conn)

lemma descending_sort_conns: "weight_descending (sort_conns cs)"
proof (induction cs)
  case Nil
  show ?case by (simp add: sort_conns_Nil weight_descending_def)
next
  case (Cons c cs)
  then show ?case by (simp add: sort_conns_Cons descending_insert_conn)
qed

lemma filter_insert_conn:
  "filter (\<lambda>d. Weight d = w) (insert_conn c ds) =
     (if Weight c = w then c # filter (\<lambda>d. Weight d = w) ds else filter (\<lambda>d. Weight d = w) ds)"
  by (induction ds) auto

lemma stable_sort_conns:
  "filter (\<lambda>d. Weight d = w) (sort_conns cs) = filter (\<lambda>d. Weight d = w) cs"
  by (induction cs) (auto simp: sort_conns_Cons sort_conns_Nil filter_insert_conn)

lemma insert_conn_descending:
  "weight_descending (c # ds) \<Longrightarrow> insert_conn c ds = c # ds"
  unfolding weight_descending_def by (cases ds) auto

lemma sort_conns_descending: "weight_descending cs \<Longrightarrow> sort_conns cs = cs"
proof (induction cs)
  case Nil
  show ?case by (simp add: sort_conns_Nil)
next
  case (Cons c cs)
  from Cons.prems have "weight_descending cs"
    by (simp add: weight_descending_def)
  with Cons.IH have "sort_conns cs = cs" by simp
  with Cons.prems show ?case
    by (simp add: sort_conns_Cons insert_conn_descending)
qed

lemma sort_conns_eq_Nil: "sort_conns cs = [] \<longleftrightarrow> cs = []"
  using length_sort_conns[of cs] by (metis length_0_conv)

lemma hd_sort_conns_max:
  assumes "c \<in> set cs"
  shows "Weight c \<le> Weight (hd (sort_conns cs))"
proof -
  from assms have "c \<in> set (sort_conns cs)" by (simp add: set_sort_conns)
  moreover have "weight_descending (sort_conns cs)" by (rule descending_sort_conns)
  ultimately show ?thesis
    unfolding weight_descending_def
    by (cases "sort_conns cs") auto
qed

section \<open>What each operation returns\<close>

lemma map_clone_conn: "map clone_conn cs = cs"
  by (induction cs) (simp_all add: clone_conn_id)

lemma Sort_fields:
  "profiles (Sort h s) = profiles h"
  "arrays (Sort h s) = (arrays h)(s := sort_conns (arrays h s))"
  "arrays_count (Sort h s) = arrays_count h"
  "dispatchers (Sort h s) = dispatchers h"
  "dispatchers_count (Sort h s) = dispatchers_count h"
  by (simp_all add: Sort_def)

lemma Clone_result:
  "Clone h s =
     (h\<lparr>arrays := (arrays h)(Suc (arrays_count h) := arrays h s),
        arrays_count := Suc (arrays_count h)\<rparr>, Suc (arrays_count h))"
  by (simp add: Clone_def Let_def map_clone_conn)

lemma newDispatcher_nil: "newDispatcher mw h nil = Inl NilPointerDereference"
  by (simp add: newDispatcher_def)

lemma newDispatcher_unsupported:
  assumes "pfl \<noteq> nil" and "Strategy (profiles h pfl) \<noteq> mw"
  shows "newDispatcher mw h pfl =
           Inr (Sort h (Conns (profiles h pfl)), nil,
                Some (''unsupported dispatch strategy: <'' @ Strategy (profiles h pfl) @ ''>''))"
  using assms by (simp add: newDispatcher_def Let_def Sort_fields)

lemma WeightDispatcher_update_all:
  "w\<lparr>conns := c, nextConnIdx := i\<rparr> = \<lparr>conns = c, nextConnIdx = i\<rparr>"
  by (cases w) simp

lemma newDispatcher_weight:
  assumes "pfl \<noteq> nil" and "Strategy (profiles h pfl) = mw"
  shows "newDispatcher mw h pfl =
           Inr (h\<lparr>arrays := (arrays h)
                     (Conns (profiles h pfl) := sort_conns (profile_pool h pfl),
                      Suc (arrays_count h) := sort_conns (profile_pool h pfl)),
                   arrays_count := Suc (arrays_count h),
                   dispatchers := (dispatchers h)
                     (Suc (dispatchers_count h) := \<lparr>conns = Suc (arrays_count h), nextConnIdx = 0\<rparr>),
                   dispatchers_count := Suc (dispatchers_count h)\<rparr>,
                Suc (dispatchers_count h), None)"
  using assms
  by (simp add: newDispatcher_def Let_def Sort_def Clone_result new_WeightDispatcher_def
      profile_pool_def)

lemma SetProfile_result:
  assumes "pfl \<noteq> nil" and "wd \<noteq> nil"
  shows "SetProfile h wd pfl =
           Inr (h\<lparr>arrays := (arrays h)
                     (Conns (profiles h pfl) := sort_conns (profile_pool h pfl),
                      Suc (arrays_count h) := sort_conns (profile_pool h pfl)),
                   arrays_count := Suc (arrays_count h),
                   dispatchers := (dispatchers h)
                     (wd := \<lparr>conns = Suc (arrays_count h), nextConnIdx = 0\<rparr>)\<rparr>)"
  using assms
  by (simp add: SetProfile_def Let_def Sort_def Clone_result profile_pool_def
      WeightDispatcher_update_all)

lemma SetProfile_nil:
  "SetProfile h wd nil = Inl NilPointerDereference"
  "SetProfile h nil pfl = Inl NilPointerDereference"
  by (simp_all add: SetProfile_def Let_def)

lemma GetInstance_result:
  assumes "wd \<noteq> nil"
  shows "GetInstance h wd =
           Inr (h\<lparr>arrays := (arrays h)(Suc (arrays_count h) := pool h wd),
                  arrays_count := Suc (arrays_count h),
                  dispatchers := (dispatchers h)
                     (Suc (dispatchers_count h) := \<lparr>conns = Suc (arrays_count h), nextConnIdx = 0\<rparr>),
                  dispatchers_count := Suc (dispatchers_count h)\<rparr>,
                Suc (dispatchers_count h))"
  using assms
  by (simp add: GetInstance_def Let_def Clone_result new_WeightDispatcher_def pool_def)

lemma with_cursor_fields:
  "profiles (with_cursor h wd j) = profiles h"
  "arrays (with_cursor h wd j) = arrays h"
  "arrays_count (with_cursor h wd j) = arrays_count h"
  "dispatchers (with_cursor h wd j) = (dispatchers h)(wd := (dispatchers h wd)\<lparr>nextConnIdx := j\<rparr>)"
  "dispatchers_count (with_cursor h wd j) = dispatchers_count h"
  by (simp_all add: with_cursor_def)

lemma with_cursor_twice: "with_cursor (with_cursor h wd i) wd j = with_cursor h wd j"
  by (simp add: with_cursor_def)

lemma with_cursor_same: "with_cursor h wd (nextConnIdx (dispatchers h wd)) = h"
  by (simp add: with_cursor_def)

lemma pool_with_cursor: "pool (with_cursor h wd j) wd' = pool h wd'"
  by (simp add: pool_def with_cursor_fields)

lemma cursor_with_cursor: "nextConnIdx (dispatchers (with_cursor h wd j) wd) = j"
  by (simp add: with_cursor_fields)

lemma NextConnID_nil: "NextConnID h nil = Inl NilPointerDereference"
  by (simp add: NextConnID_def)

lemma NextConnID_out_of_range:
  assumes "wd \<noteq> nil" and "\<not> cursor_ok h wd"
  shows "NextConnID h wd = Inl IndexOutOfRange"
  using assms by (auto simp: NextConnID_def cursor_ok_def pool_def Let_def)

lemma NextConnID_in_range:
  assumes "wd \<noteq> nil" and "cursor_ok h wd"
  shows "NextConnID h wd =
           Inr (with_cursor h wd
                  (if nextConnIdx (dispatchers h wd) + 1 = int (length (pool h wd)) then 0
                   else nextConnIdx (dispatchers h wd) + 1),
                ID (pool h wd ! nat (nextConnIdx (dispatchers h wd))))"
  using assms
  by (auto simp: NextConnID_def incrNextConnIdx_def cursor_ok_def pool_def Let_def with_cursor_def)

lemma wrap_eq_mod:
  fixes i n :: int
  assumes "0 \<le> i" and "i < n"
  shows "(if i + 1 = n then 0 else i + 1) = (i + 1) mod n"
  using assms by auto

lemma NextConnID_cases:
  "NextConnID h wd = Inl NilPointerDereference \<and> wd = nil \<or>
   NextConnID h wd = Inl IndexOutOfRange \<and> wd \<noteq> nil \<and> \<not> cursor_ok h wd \<or>
   wd \<noteq> nil \<and> cursor_ok h wd \<and>
     NextConnID h wd = Inr (with_cursor h wd ((nextConnIdx (dispatchers h wd) + 1) mod int (length (pool h wd))),
                ID (pool h wd ! nat (nextConnIdx (dispatchers h wd))))"
proof (cases "wd = nil")
  case True
  then show ?thesis by (simp add: NextConnID_nil)
next
  case False
  show ?thesis
  proof (cases "cursor_ok h wd")
    case True
    then have "0 \<le> nextConnIdx (dispatchers h wd)" "nextConnIdx (dispatchers h wd) < int (length (pool h wd))"
      by (simp_all add: cursor_ok_def)
    from wrap_eq_mod[OF this] NextConnID_in_range[OF False True] False True
    show ?thesis by simp
  next
    case c: False
    with False show ?thesis by (simp add: NextConnID_out_of_range)
  qed
qed

lemma cursor_ok_with_cursor:
  "cursor_ok (with_cursor h wd j) wd \<longleftrightarrow> 0 \<le> j \<and> j < int (length (pool h wd))"
  by (simp add: cursor_ok_def pool_with_cursor cursor_with_cursor)

lemma NextConnID_step:
  assumes "wd \<noteq> nil" and "cursor_ok h wd"
  shows "NextConnID h wd =
           Inr (with_cursor h wd ((nextConnIdx (dispatchers h wd) + 1) mod int (length (pool h wd))),
                ID (pool h wd ! nat (nextConnIdx (dispatchers h wd))))"
  using NextConnID_cases[of h wd] assms by auto

lemma NextConnIDs_in_range:
  assumes "wd \<noteq> nil" and "cursor_ok h wd"
  shows "NextConnIDs n h wd =
           Inr (with_cursor h wd ((nextConnIdx (dispatchers h wd) + int n) mod int (length (pool h wd))),
                map (\<lambda>k. ID (pool h wd ! nat ((nextConnIdx (dispatchers h wd) + int k) mod int (length (pool h wd)))))
                  [0..<n])"
  using assms(2)
proof (induction n arbitrary: h)
  case 0
  then have "nextConnIdx (dispatchers h wd) mod int (length (pool h wd)) = nextConnIdx (dispatchers h wd)"
    by (simp add: cursor_ok_def)
  then show ?case by (simp add: with_cursor_same)
next
  case (Suc n)
  let ?i = "nextConnIdx (dispatchers h wd)"
  let ?len = "int (length (pool h wd))"
  let ?h1 = "with_cursor h wd ((?i + 1) mod ?len)"
  from Suc.prems have i: "0 \<le> ?i" "?i < ?len"
    by (simp_all add: cursor_ok_def)
  then have pos: "0 < ?len" by linarith
  have ok1: "cursor_ok ?h1 wd"
    using pos by (simp add: cursor_ok_with_cursor)
  have first: "NextConnID h wd = Inr (?h1, ID (pool h wd ! nat ?i))"
    by (rule NextConnID_step[OF assms(1) Suc.prems])
  have rest: "NextConnIDs n ?h1 wd =
      Inr (with_cursor h wd ((?i + 1 + int n) mod ?len),
           map (\<lambda>k. ID (pool h wd ! nat ((?i + 1 + int k) mod ?len))) [0..<n])"
    using Suc.IH[OF ok1]
    by (simp add: cursor_with_cursor pool_with_cursor with_cursor_twice mod_add_left_eq)
  have ids: "map (\<lambda>k. ID (pool h wd ! nat ((?i + int k) mod ?len))) [0..<Suc n] =
        ID (pool h wd ! nat ?i) # map (\<lambda>k. ID (pool h wd ! nat ((?i + 1 + int k) mod ?len))) [0..<n]"
  proof -
    have "[0..<Suc n] = 0 # map Suc [0..<n]"
      by (simp add: upt_conv_Cons map_Suc_upt del: upt_Suc)
    then show ?thesis using i
      by (simp add: o_def ac_simps del: upt_Suc)
  qed
  show ?case
    by (simp only: NextConnIDs.simps first rest ids sum.case prod.case) (simp add: ac_simps)
qed

lemma NextConnIDs_Inr_cursor:
  assumes "NextConnIDs n h wd = Inr (h', cs)"
  shows "\<exists>j. h' = with_cursor h wd j"
  using assms
proof (induction n arbitrary: h h' cs)
  case 0
  then have "h' = with_cursor h wd (nextConnIdx (dispatchers h wd))"
    by (simp add: with_cursor_same)
  then show ?case ..
next
  case (Suc n)
  from Suc.prems obtain h1 c1 where first: "NextConnID h wd = Inr (h1, c1)"
    by (auto split: sum.splits)
  with Suc.prems obtain cs1 where rest: "NextConnIDs n h1 wd = Inr (h', cs1)"
    by (auto split: sum.splits)
  from first NextConnID_cases[of h wd] obtain i where h1: "h1 = with_cursor h wd i"
    by auto
  from Suc.IH[OF rest] obtain j where "h' = with_cursor h1 wd j" ..
  with h1 have "h' = with_cursor h wd j" by (simp add: with_cursor_twice)
  then show ?case ..
qed

section \<open>Facts about the example stores\<close>

lemma example_heap_fields:
  "profiles example_heap = example_profiles"
  "arrays_count example_heap = 3"
  "dispatchers_count example_heap = 0"
  "arrays example_heap (Suc 0) =
     [\<lparr>ID = ''A'', Weight = 10\<rparr>, \<lparr>ID = ''B'', Weight = 20\<rparr>, \<lparr>ID = ''C'', Weight = 20\<rparr>]"
  "arrays example_heap 2 = []"
  "arrays example_heap 3 = [\<lparr>ID = ''D'', Weight = 5\<rparr>, \<lparr>ID = ''E'', Weight = 7\<rparr>]"
  by (simp_all add: example_heap_def)

lemma example_profiles_fields:
  "example_profiles (Suc 0) = \<lparr>Conns = 1, Strategy = ''*weight''\<rparr>"
  "example_profiles 2 = \<lparr>Conns = 2, Strategy = ''*weight''\<rparr>"
  "example_profiles 3 = \<lparr>Conns = 1, Strategy = ''*random''\<rparr>"
  "example_profiles 4 = \<lparr>Conns = 3, Strategy = ''*weight''\<rparr>"
  by (simp_all add: example_profiles_def)

lemma example_selector_heap_fields:
  "profiles example_selector_heap = example_profiles"
  "arrays_count example_selector_heap = 4"
  "dispatchers_count example_selector_heap = 1"
  "dispatchers example_selector_heap (Suc 0) = \<lparr>conns = 4, nextConnIdx = 2\<rparr>"
  "arrays example_selector_heap (Suc 0) =
     [\<lparr>ID = ''B'', Weight = 20\<rparr>, \<lparr>ID = ''C'', Weight = 20\<rparr>, \<lparr>ID = ''A'', Weight = 10\<rparr>]"
  "arrays example_selector_heap 2 = []"
  "arrays example_selector_heap 3 = [\<lparr>ID = ''D'', Weight = 5\<rparr>, \<lparr>ID = ''E'', Weight = 7\<rparr>]"
  "arrays example_selector_heap 4 =
     [\<lparr>ID = ''B'', Weight = 20\<rparr>, \<lparr>ID = ''C'', Weight = 20\<rparr>, \<lparr>ID = ''A'', Weight = 10\<rparr>]"
  by (simp_all add: example_selector_heap_def)

lemma example_selector_cursor_ok: "cursor_ok example_selector_heap (Suc 0)"
  by (simp add: cursor_ok_def pool_def example_selector_heap_fields)

section \<open>Rotation over the canonical order\<close>

lemma ids_full_cycle:
  "map (\<lambda>k. ID (cs ! nat (int k mod int (length cs)))) [0..<length cs] = map ID cs"
proof -
  have "map (\<lambda>k. ID (cs ! nat (int k mod int (length cs)))) [0..<length cs] =
        map (\<lambda>k. ID (cs ! k)) [0..<length cs]"
    by (rule map_cong) simp_all
  also have "\<dots> = map ID (map (\<lambda>k. cs ! k) [0..<length cs])"
    by (simp add: o_def)
  also have "\<dots> = map ID cs"
    by (simp only: map_nth)
  finally show ?thesis .
qed

lemma NextConnIDs_full_cycle:
  assumes "wd \<noteq> nil" and "nextConnIdx (dispatchers h wd) = 0" and "pool h wd \<noteq> []"
  shows "NextConnIDs (length (pool h wd)) h wd = Inr (h, map ID (pool h wd))"
proof -
  from assms have ok: "cursor_ok h wd" by (simp add: cursor_ok_def)
  have "with_cursor h wd 0 = h"
    using with_cursor_same[of h wd] assms(2) by simp
  with NextConnIDs_in_range[OF assms(1) ok, of "length (pool h wd)"] assms(2)
  show ?thesis by (simp add: ids_full_cycle)
qed

lemma NextConnIDs_wraparound:
  assumes "wd \<noteq> nil" and "nextConnIdx (dispatchers h wd) = 0" and "pool h wd \<noteq> []"
  shows "\<exists>h'. NextConnIDs (Suc (length (pool h wd))) h wd =
           Inr (h', map ID (pool h wd) @ [ID (hd (pool h wd))])"
proof -
  from assms have ok: "cursor_ok h wd" by (simp add: cursor_ok_def)
  have "map (\<lambda>k. ID (pool h wd ! nat (int k mod int (length (pool h wd))))) [0..<Suc (length (pool h wd))]
        = map ID (pool h wd) @ [ID (pool h wd ! 0)]"
    by (simp add: ids_full_cycle)
  moreover have "pool h wd ! 0 = hd (pool h wd)"
    using assms(3) by (simp add: hd_conv_nth)
  ultimately show ?thesis
    using NextConnIDs_in_range[OF assms(1) ok, of "Suc (length (pool h wd))"] assms(2)
    by simp
qed

text \<open>
  Claim C1. For a profile with \<open>N \<ge> 1\<close> connections and the weighted strategy, the
  factory returns a dispatcher on which \<open>N\<close> successive \<^verbatim>\<open>NextConnID\<close> calls return the
  identifiers of the pool in canonical order, and the call after them returns the first
  identifier again. The canonical order is a rearrangement of the profile's descriptors
  (each exactly once) with weights descending, in which descriptors of equal weight keep
  their declaration order.
\<close>

theorem newDispatcher_rotation:
  fixes h :: "('w::linorder) heap"
  assumes "pfl \<noteq> nil"
      and "Strategy (profiles h pfl) = mw"
      and "profile_pool h pfl \<noteq> []"
  shows "\<exists>h1 d.
           newDispatcher mw h pfl = Inr (h1, d, None) \<and> d \<noteq> nil \<and>
           (\<exists>h2. NextConnIDs (length (profile_pool h pfl)) h1 d =
                    Inr (h2, map ID (sort_conns (profile_pool h pfl)))) \<and>
           (\<exists>h3. NextConnIDs (Suc (length (profile_pool h pfl))) h1 d =
                    Inr (h3, map ID (sort_conns (profile_pool h pfl)) @
                             [hd (map ID (sort_conns (profile_pool h pfl)))])) \<and>
           mset (sort_conns (profile_pool h pfl)) = mset (profile_pool h pfl) \<and>
           weight_descending (sort_conns (profile_pool h pfl)) \<and>
           (\<forall>w. filter (\<lambda>c. Weight c = w) (sort_conns (profile_pool h pfl)) =
                filter (\<lambda>c. Weight c = w) (profile_pool h pfl))"
proof -
  let ?canon = "sort_conns (profile_pool h pfl)"
  let ?d = "Suc (dispatchers_count h)"
  let ?h1 = "h\<lparr>arrays := (arrays h)
                     (Conns (profiles h pfl) := ?canon, Suc (arrays_count h) := ?canon),
                   arrays_count := Suc (arrays_count h),
                   dispatchers := (dispatchers h)
                     (?d := \<lparr>conns = Suc (arrays_count h), nextConnIdx = 0\<rparr>),
                   dispatchers_count := ?d\<rparr>"
  have new: "newDispatcher mw h pfl = Inr (?h1, ?d, None)"
    by (rule newDispatcher_weight[OF assms(1,2)])
  have d: "?d \<noteq> nil" by (simp add: nil_def)
  have pool1: "pool ?h1 ?d = ?canon" by (simp add: pool_def)
  have cur1: "nextConnIdx (dispatchers ?h1 ?d) = 0" by simp
  have ne: "?canon \<noteq> []" using assms(3) by (simp add: sort_conns_eq_Nil)
  have len: "length ?canon = length (profile_pool h pfl)" by (rule length_sort_conns)
  have cycle: "NextConnIDs (length (profile_pool h pfl)) ?h1 ?d = Inr (?h1, map ID ?canon)"
    using NextConnIDs_full_cycle[OF d cur1] ne by (simp only: pool1 len) simp
  have wrap: "\<exists>h3. NextConnIDs (Suc (length (profile_pool h pfl))) ?h1 ?d =
                Inr (h3, map ID ?canon @ [hd (map ID ?canon)])"
    using NextConnIDs_wraparound[OF d cur1] ne by (simp only: pool1 len) (simp add: hd_map)
  show ?thesis
    using new d cycle wrap mset_sort_conns[of "profile_pool h pfl"]
      descending_sort_conns[of "profile_pool h pfl"] stable_sort_conns[of _ "profile_pool h pfl"]
    by blast
qed

theorem newDispatcher_rotation_witness:
  "(1::addr) \<noteq> nil \<and> Strategy (profiles example_heap 1) = ''*weight'' \<and>
   profile_pool example_heap 1 \<noteq> [] \<and>
   map ID (sort_conns (profile_pool example_heap 1)) = [''B'', ''C'', ''A''] \<and>
   (\<exists>h1 d. newDispatcher ''*weight'' example_heap 1 = Inr (h1, d, None) \<and> d \<noteq> nil \<and>
      (\<exists>h2. NextConnIDs 3 h1 d = Inr (h2, [''B'', ''C'', ''A''])) \<and>
      (\<exists>h3. NextConnIDs 4 h1 d = Inr (h3, [''B'', ''C'', ''A'', ''B''])))"
proof -
  have a: "(1::addr) \<noteq> nil" by (simp add: nil_def)
  have b: "Strategy (profiles example_heap 1) = ''*weight''"
    by (simp add: example_heap_def example_profiles_def)
  have p: "profile_pool example_heap 1 =
      [\<lparr>ID = ''A'', Weight = 10\<rparr>, \<lparr>ID = ''B'', Weight = 20\<rparr>, \<lparr>ID = ''C'', Weight = 20\<rparr>]"
    by (simp add: profile_pool_def example_heap_def example_profiles_def)
  have c: "profile_pool example_heap 1 \<noteq> []" unfolding p by simp
  have s: "map ID (sort_conns (profile_pool example_heap 1)) = [''B'', ''C'', ''A'']"
    unfolding p by (simp add: sort_conns_def)
  have l: "length (profile_pool example_heap 1) = 3" unfolding p by simp
  from newDispatcher_rotation[OF a b c]
  have "\<exists>h1 d. newDispatcher ''*weight'' example_heap 1 = Inr (h1, d, None) \<and> d \<noteq> nil \<and>
      (\<exists>h2. NextConnIDs 3 h1 d = Inr (h2, [''B'', ''C'', ''A''])) \<and>
      (\<exists>h3. NextConnIDs 4 h1 d = Inr (h3, [''B'', ''C'', ''A'', ''B'']))"
    unfolding s l by auto
  with a b c s show ?thesis by blast
qed

section \<open>The factory's two outcomes\<close>

text \<open>
  Claim C6. For a non-\<^verbatim>\<open>nil\<close> profile the factory returns an error exactly when the
  profile's strategy is not the weighted one. The error carries the strategy's name, and
  with it no dispatcher is returned (the result is \<^verbatim>\<open>nil\<close> and no dispatcher object has
  been allocated). For the weighted strategy the factory returns no error and a newly
  allocated weighted dispatcher whose cursor is 0 and whose pool is the profile's
  connections in canonical order.
\<close>

theorem newDispatcher_error_iff_unsupported:
  fixes h :: "('w::linorder) heap"
  assumes "pfl \<noteq> nil"
  shows "\<exists>h' d err.
           newDispatcher mw h pfl = Inr (h', d, err) \<and>
           (err \<noteq> None \<longleftrightarrow> Strategy (profiles h pfl) \<noteq> mw) \<and>
           (Strategy (profiles h pfl) \<noteq> mw \<longrightarrow>
              err = Some (''unsupported dispatch strategy: <'' @ Strategy (profiles h pfl) @ ''>'') \<and>
              d = nil \<and> dispatchers h' = dispatchers h \<and>
              dispatchers_count h' = dispatchers_count h) \<and>
           (Strategy (profiles h pfl) = mw \<longrightarrow>
              err = None \<and> d \<noteq> nil \<and> \<not> live h d \<and> live h' d \<and>
              nextConnIdx (dispatchers h' d) = 0 \<and>
              pool h' d = sort_conns (profile_pool h pfl))"
proof (cases "Strategy (profiles h pfl) = mw")
  case True
  show ?thesis
    unfolding newDispatcher_weight[OF assms True]
    using True by (simp add: live_def nil_def pool_def)
next
  case False
  show ?thesis
    unfolding newDispatcher_unsupported[OF assms False]
    using False by (simp add: Sort_fields)
qed

theorem newDispatcher_error_iff_unsupported_witness:
  "(1::addr) \<noteq> nil \<and> (3::addr) \<noteq> nil \<and>
   Strategy (profiles example_heap 1) = ''*weight'' \<and>
   Strategy (profiles example_heap 3) = ''*random'' \<and>
   (\<exists>h' d. newDispatcher ''*weight'' example_heap 1 = Inr (h', d, None) \<and> d \<noteq> nil \<and>
      live h' d \<and> nextConnIdx (dispatchers h' d) = 0) \<and>
   (\<exists>h'. newDispatcher ''*weight'' example_heap 3 =
      Inr (h', nil, Some ''unsupported dispatch strategy: <*random>'') \<and>
      dispatchers_count h' = 0)"
proof -
  have a: "(1::addr) \<noteq> nil" and b: "(3::addr) \<noteq> nil"
    by (simp_all add: nil_def)
  have s1: "Strategy (profiles example_heap 1) = ''*weight''"
    and s3: "Strategy (profiles example_heap 3) = ''*random''"
    by (simp_all add: example_heap_fields example_profiles_fields)
  from newDispatcher_error_iff_unsupported[OF a, of "''*weight''" example_heap]
  have w: "\<exists>h' d. newDispatcher ''*weight'' example_heap 1 = Inr (h', d, None) \<and> d \<noteq> nil \<and>
      live h' d \<and> nextConnIdx (dispatchers h' d) = 0"
    unfolding s1 by auto
  from newDispatcher_error_iff_unsupported[OF b, of "''*weight''" example_heap]
  have u: "\<exists>h'. newDispatcher ''*weight'' example_heap 3 =
      Inr (h', nil, Some ''unsupported dispatch strategy: <*random>'') \<and>
      dispatchers_count h' = 0"
    unfolding s3 by (auto simp: example_heap_fields)
  from a b s1 s3 w u show ?thesis by blast
qed

section \<open>Reconfiguration\<close>

lemma hd_sort_conns_mem:
  assumes "cs \<noteq> []"
  shows "hd (sort_conns cs) \<in> set cs"
proof -
  from assms have "sort_conns cs \<noteq> []" by (simp add: sort_conns_eq_Nil)
  then have "hd (sort_conns cs) \<in> set (sort_conns cs)" by (rule hd_in_set)
  then show ?thesis by (simp add: set_sort_conns)
qed

lemma NextConnID_at_start:
  assumes "wd \<noteq> nil" and "nextConnIdx (dispatchers h wd) = 0" and "pool h wd \<noteq> []"
  shows "\<exists>h'. NextConnID h wd = Inr (h', ID (hd (pool h wd)))"
proof -
  from assms have "cursor_ok h wd" by (simp add: cursor_ok_def)
  from NextConnID_step[OF assms(1) this] assms(2,3) show ?thesis
    by (simp add: hd_conv_nth)
qed

text \<open>
  Claim C3. \<^verbatim>\<open>SetProfile\<close> with a non-empty profile, applied to a dispatcher in any state
  (whatever its prior pool and however far its cursor had advanced), leaves the cursor at
  0 and the pool equal to the new profile's connections in canonical order; the next
  \<^verbatim>\<open>NextConnID\<close> call returns the identifier of that pool's first element, which is a
  connection of the new profile of highest weight. When the new profile shares no
  identifier with the prior pool, the identifier returned is not one of the prior pool.
\<close>

theorem SetProfile_then_NextConnID:
  fixes h :: "('w::linorder) heap"
  assumes "wd \<noteq> nil" and "pfl \<noteq> nil" and "profile_pool h pfl \<noteq> []"
  shows "\<exists>h1.
           SetProfile h wd pfl = Inr h1 \<and>
           nextConnIdx (dispatchers h1 wd) = 0 \<and>
           pool h1 wd = sort_conns (profile_pool h pfl) \<and>
           (\<exists>h2. NextConnID h1 wd = Inr (h2, ID (hd (sort_conns (profile_pool h pfl))))) \<and>
           hd (sort_conns (profile_pool h pfl)) \<in> set (profile_pool h pfl) \<and>
           (\<forall>c \<in> set (profile_pool h pfl).
              Weight c \<le> Weight (hd (sort_conns (profile_pool h pfl)))) \<and>
           (ID ` set (profile_pool h pfl) \<inter> ID ` set (pool h wd) = {} \<longrightarrow>
              ID (hd (sort_conns (profile_pool h pfl))) \<notin> ID ` set (pool h wd))"
proof -
  let ?canon = "sort_conns (profile_pool h pfl)"
  let ?h1 = "h\<lparr>arrays := (arrays h)
                 (Conns (profiles h pfl) := ?canon, Suc (arrays_count h) := ?canon),
               arrays_count := Suc (arrays_count h),
               dispatchers := (dispatchers h)
                 (wd := \<lparr>conns = Suc (arrays_count h), nextConnIdx = 0\<rparr>)\<rparr>"
  have set: "SetProfile h wd pfl = Inr ?h1"
    by (rule SetProfile_result[OF assms(2,1)])
  have cur: "nextConnIdx (dispatchers ?h1 wd) = 0" by simp
  have pool1: "pool ?h1 wd = ?canon" by (simp add: pool_def)
  have ne: "pool ?h1 wd \<noteq> []"
    using assms(3) by (simp add: pool1 sort_conns_eq_Nil)
  have nxt: "\<exists>h2. NextConnID ?h1 wd = Inr (h2, ID (hd ?canon))"
    using NextConnID_at_start[OF assms(1) cur ne] by (simp only: pool1)
  have mem: "hd ?canon \<in> set (profile_pool h pfl)"
    by (rule hd_sort_conns_mem[OF assms(3)])
  have max: "\<forall>c \<in> set (profile_pool h pfl). Weight c \<le> Weight (hd ?canon)"
    by (simp add: hd_sort_conns_max)
  have fresh: "ID ` set (profile_pool h pfl) \<inter> ID ` set (pool h wd) = {} \<longrightarrow>
      ID (hd ?canon) \<notin> ID ` set (pool h wd)"
    using mem by blast
  from set cur pool1 nxt mem max fresh show ?thesis by blast
qed

theorem SetProfile_then_NextConnID_witness:
  "(1::addr) \<noteq> nil \<and> (4::addr) \<noteq> nil \<and>
   profile_pool example_selector_heap 4 = [\<lparr>ID = ''D'', Weight = 5\<rparr>, \<lparr>ID = ''E'', Weight = 7\<rparr>] \<and>
   pool example_selector_heap 1 =
     [\<lparr>ID = ''B'', Weight = 20\<rparr>, \<lparr>ID = ''C'', Weight = 20\<rparr>, \<lparr>ID = ''A'', Weight = 10\<rparr>] \<and>
   nextConnIdx (dispatchers example_selector_heap 1) = 2 \<and>
   (\<exists>h1. SetProfile example_selector_heap 1 4 = Inr h1 \<and>
      nextConnIdx (dispatchers h1 1) = 0 \<and>
      pool h1 1 = [\<lparr>ID = ''E'', Weight = 7\<rparr>, \<lparr>ID = ''D'', Weight = 5\<rparr>] \<and>
      (\<exists>h2. NextConnID h1 1 = Inr (h2, ''E'')))"
proof -
  have a: "(1::addr) \<noteq> nil" and b: "(4::addr) \<noteq> nil"
    by (simp_all add: nil_def)
  have p: "profile_pool example_selector_heap 4 =
      [\<lparr>ID = ''D'', Weight = 5\<rparr>, \<lparr>ID = ''E'', Weight = 7\<rparr>]"
    by (simp add: profile_pool_def example_selector_heap_fields example_profiles_fields)
  have q: "pool example_selector_heap 1 =
     [\<lparr>ID = ''B'', Weight = 20\<rparr>, \<lparr>ID = ''C'', Weight = 20\<rparr>, \<lparr>ID = ''A'', Weight = 10\<rparr>]"
    by (simp add: pool_def example_selector_heap_fields)
  have i: "nextConnIdx (dispatchers example_selector_heap 1) = 2"
    by (simp add: example_selector_heap_fields)
  have ne: "profile_pool example_selector_heap 4 \<noteq> []"
    unfolding p by simp
  have s: "sort_conns (profile_pool example_selector_heap 4) =
      [\<lparr>ID = ''E'', Weight = 7\<rparr>, \<lparr>ID = ''D'', Weight = 5\<rparr>]"
    unfolding p by (simp add: sort_conns_def)
  from SetProfile_then_NextConnID[OF a b ne]
  have "\<exists>h1. SetProfile example_selector_heap 1 4 = Inr h1 \<and>
      nextConnIdx (dispatchers h1 1) = 0 \<and>
      pool h1 1 = [\<lparr>ID = ''E'', Weight = 7\<rparr>, \<lparr>ID = ''D'', Weight = 5\<rparr>] \<and>
      (\<exists>h2. NextConnID h1 1 = Inr (h2, ''E''))"
    unfolding s by auto
  with a b p q i show ?thesis by blast
qed

section \<open>What \<^verbatim>\<open>NextConnID\<close> leaves unchanged\<close>

lemma NextConnID_Inr_cursor:
  assumes "NextConnID h wd = Inr (h', c)"
  shows "\<exists>j. h' = with_cursor h wd j"
  using assms NextConnID_cases[of h wd] by auto

lemma MaxConns_with_cursor: "MaxConns (with_cursor h wd j) wd' = MaxConns h wd'"
  by (simp add: MaxConns_def with_cursor_fields)

lemma with_cursor_frame:
  assumes "h' = with_cursor h wd j"
  shows "profiles h' = profiles h \<and> arrays h' = arrays h \<and>
         arrays_count h' = arrays_count h \<and> dispatchers_count h' = dispatchers_count h \<and>
         conns (dispatchers h' wd) = conns (dispatchers h wd) \<and>
         (\<forall>wd'. wd' \<noteq> wd \<longrightarrow> dispatchers h' wd' = dispatchers h wd') \<and>
         pool h' wd = pool h wd \<and> MaxConns h' wd = MaxConns h wd"
  unfolding assms
  by (simp add: with_cursor_fields pool_with_cursor MaxConns_with_cursor)

text \<open>
  Claim C10. A \<^verbatim>\<open>NextConnID\<close> call that returns, and any number of successive calls that
  return, change nothing of the store but the cursor of the dispatcher they are applied
  to: profiles, backing arrays, allocation counters, every other dispatcher and the
  dispatcher's own pool reference are the same before and after, so the pool (its
  descriptors, their count and their order) and the result of \<^verbatim>\<open>MaxConns\<close> are the same.
\<close>

theorem NextConnID_changes_only_cursor:
  "(NextConnID h wd = Inr (h1, c) \<longrightarrow>
      (\<exists>j. h1 = with_cursor h wd j) \<and>
      profiles h1 = profiles h \<and> arrays h1 = arrays h \<and>
      arrays_count h1 = arrays_count h \<and> dispatchers_count h1 = dispatchers_count h \<and>
      conns (dispatchers h1 wd) = conns (dispatchers h wd) \<and>
      (\<forall>wd'. wd' \<noteq> wd \<longrightarrow> dispatchers h1 wd' = dispatchers h wd') \<and>
      pool h1 wd = pool h wd \<and> MaxConns h1 wd = MaxConns h wd) \<and>
   (NextConnIDs n h wd = Inr (h2, cs) \<longrightarrow>
      (\<exists>j. h2 = with_cursor h wd j) \<and>
      profiles h2 = profiles h \<and> arrays h2 = arrays h \<and>
      arrays_count h2 = arrays_count h \<and> dispatchers_count h2 = dispatchers_count h \<and>
      conns (dispatchers h2 wd) = conns (dispatchers h wd) \<and>
      (\<forall>wd'. wd' \<noteq> wd \<longrightarrow> dispatchers h2 wd' = dispatchers h wd') \<and>
      pool h2 wd = pool h wd \<and> MaxConns h2 wd = MaxConns h wd)"
proof (intro conjI impI)
  assume "NextConnID h wd = Inr (h1, c)"
  then obtain j where j: "h1 = with_cursor h wd j"
    using NextConnID_Inr_cursor by blast
  then show "\<exists>j. h1 = with_cursor h wd j" ..
  from with_cursor_frame[OF j]
  show "profiles h1 = profiles h" "arrays h1 = arrays h"
    "arrays_count h1 = arrays_count h" "dispatchers_count h1 = dispatchers_count h"
    "conns (dispatchers h1 wd) = conns (dispatchers h wd)"
    "\<forall>wd'. wd' \<noteq> wd \<longrightarrow> dispatchers h1 wd' = dispatchers h wd'"
    "pool h1 wd = pool h wd" "MaxConns h1 wd = MaxConns h wd"
    by blast+
next
  assume "NextConnIDs n h wd = Inr (h2, cs)"
  then obtain j where j: "h2 = with_cursor h wd j"
    using NextConnIDs_Inr_cursor by blast
  then show "\<exists>j. h2 = with_cursor h wd j" ..
  from with_cursor_frame[OF j]
  show "profiles h2 = profiles h" "arrays h2 = arrays h"
    "arrays_count h2 = arrays_count h" "dispatchers_count h2 = dispatchers_count h"
    "conns (dispatchers h2 wd) = conns (dispatchers h wd)"
    "\<forall>wd'. wd' \<noteq> wd \<longrightarrow> dispatchers h2 wd' = dispatchers h wd'"
    "pool h2 wd = pool h wd" "MaxConns h2 wd = MaxConns h wd"
    by blast+
qed

theorem NextConnID_changes_only_cursor_witness:
  "NextConnID example_selector_heap 1 = Inr (with_cursor example_selector_heap 1 0, ''A'') \<and>
   NextConnIDs 2 example_selector_heap 1 = Inr (with_cursor example_selector_heap 1 1, [''A'', ''B'']) \<and>
   pool example_selector_heap 1 =
     [\<lparr>ID = ''B'', Weight = 20\<rparr>, \<lparr>ID = ''C'', Weight = 20\<rparr>, \<lparr>ID = ''A'', Weight = 10\<rparr>] \<and>
   pool (with_cursor example_selector_heap 1 0) 1 = pool example_selector_heap 1 \<and>
   pool (with_cursor example_selector_heap 1 1) 1 = pool example_selector_heap 1 \<and>
   MaxConns example_selector_heap 1 = Inr 3 \<and>
   MaxConns (with_cursor example_selector_heap 1 0) 1 = MaxConns example_selector_heap 1 \<and>
   MaxConns (with_cursor example_selector_heap 1 1) 1 = MaxConns example_selector_heap 1 \<and>
   arrays (with_cursor example_selector_heap 1 1) = arrays example_selector_heap"
proof -
  have n: "(1::addr) \<noteq> nil" by (simp add: nil_def)
  have ok: "cursor_ok example_selector_heap 1"
    using example_selector_cursor_ok by simp
  have q: "pool example_selector_heap 1 =
     [\<lparr>ID = ''B'', Weight = 20\<rparr>, \<lparr>ID = ''C'', Weight = 20\<rparr>, \<lparr>ID = ''A'', Weight = 10\<rparr>]"
    by (simp add: pool_def example_selector_heap_fields)
  have i: "nextConnIdx (dispatchers example_selector_heap 1) = 2"
    by (simp add: example_selector_heap_fields)
  have one: "NextConnID example_selector_heap 1 =
      Inr (with_cursor example_selector_heap 1 0, ''A'')"
    unfolding NextConnID_step[OF n ok] q i by simp
  have two: "NextConnIDs 2 example_selector_heap 1 =
      Inr (with_cursor example_selector_heap 1 1, [''A'', ''B''])"
    unfolding NextConnIDs_in_range[OF n ok] q i by (simp add: upt_conv_Cons)
  have m: "MaxConns example_selector_heap 1 = Inr 3"
    using q n by (simp add: MaxConns_def pool_def)
  from NextConnID_changes_only_cursor[of example_selector_heap 1
      "with_cursor example_selector_heap 1 0" "''A''" 2
      "with_cursor example_selector_heap 1 1" "[''A'', ''B'']"] one two q m
  show ?thesis by simp
qed

section \<open>Effects on the caller's profile\<close>

lemma example_built_heap:
  "newDispatcher ''*weight'' example_heap 1 =
     Inr (with_cursor example_selector_heap 1 0, 1, None)"
proof -
  have a: "(1::addr) \<noteq> nil" by (simp add: nil_def)
  have s: "Strategy (profiles example_heap 1) = ''*weight''"
    by (simp add: example_heap_fields example_profiles_fields)
  have p: "sort_conns (profile_pool example_heap 1) =
      [\<lparr>ID = ''B'', Weight = 20\<rparr>, \<lparr>ID = ''C'', Weight = 20\<rparr>, \<lparr>ID = ''A'', Weight = 10\<rparr>]"
    by (simp add: profile_pool_def example_heap_fields example_profiles_fields sort_conns_def)
  show ?thesis
    unfolding newDispatcher_weight[OF a s] p
    by (simp add: with_cursor_def example_heap_def example_selector_heap_def
        example_profiles_fields fun_eq_iff)
qed

text \<open>
  Claim C2 as stated fails: the factory, given profile 1 of the example store with its
  connections declared as A, B, C, returns with the profile's own pool reordered to
  B, C, A.
\<close>

theorem newDispatcher_reorders_profile:
  "newDispatcher ''*weight'' example_heap 1 =
     Inr (with_cursor example_selector_heap 1 0, 1, None) \<and>
   profile_pool example_heap 1 =
     [\<lparr>ID = ''A'', Weight = 10\<rparr>, \<lparr>ID = ''B'', Weight = 20\<rparr>, \<lparr>ID = ''C'', Weight = 20\<rparr>] \<and>
   profile_pool (with_cursor example_selector_heap 1 0) 1 =
     [\<lparr>ID = ''B'', Weight = 20\<rparr>, \<lparr>ID = ''C'', Weight = 20\<rparr>, \<lparr>ID = ''A'', Weight = 10\<rparr>] \<and>
   profile_pool (with_cursor example_selector_heap 1 0) 1 \<noteq> profile_pool example_heap 1"
  using example_built_heap
  by (simp add: profile_pool_def with_cursor_fields example_heap_fields
      example_selector_heap_fields example_profiles_fields)

text \<open>
  Claim C2, as amended. The factory and \<^verbatim>\<open>SetProfile\<close> sort the connection pool of the
  profile they are given in place: afterwards the profile has the same fields (strategy
  and pool reference) and its pool holds the same descriptors in canonical order, so a
  pool already in canonical order is unchanged. No other allocated backing array and no
  other dispatcher is changed. The dispatcher's pool is a copy of the sorted pool in
  newly allocated storage, distinct from the profile's, so a later write to the profile's
  pool does not change the dispatcher's pool.
\<close>

theorem profile_sorted_in_place_pool_copied:
  fixes h :: "('w::linorder) heap"
  assumes "pfl \<noteq> nil" and "Conns (profiles h pfl) \<le> arrays_count h"
  shows "(\<exists>h' d err.
            newDispatcher mw h pfl = Inr (h', d, err) \<and>
            profiles h' = profiles h \<and>
            profile_pool h' pfl = sort_conns (profile_pool h pfl) \<and>
            (\<forall>a. a \<le> arrays_count h \<and> a \<noteq> Conns (profiles h pfl) \<longrightarrow> arrays h' a = arrays h a) \<and>
            (\<forall>wd'. wd' \<le> dispatchers_count h \<longrightarrow> dispatchers h' wd' = dispatchers h wd') \<and>
            (d \<noteq> nil \<longrightarrow>
               arrays_count h < conns (dispatchers h' d) \<and>
               conns (dispatchers h' d) \<noteq> Conns (profiles h' pfl) \<and>
               pool h' d = sort_conns (profile_pool h pfl) \<and>
               (\<forall>cs. pool (h'\<lparr>arrays := (arrays h')(Conns (profiles h' pfl) := cs)\<rparr>) d = pool h' d))) \<and>
         (wd \<noteq> nil \<longrightarrow>
           (\<exists>h'. SetProfile h wd pfl = Inr h' \<and>
              profiles h' = profiles h \<and>
              profile_pool h' pfl = sort_conns (profile_pool h pfl) \<and>
              (\<forall>a. a \<le> arrays_count h \<and> a \<noteq> Conns (profiles h pfl) \<longrightarrow> arrays h' a = arrays h a) \<and>
              (\<forall>wd'. wd' \<noteq> wd \<longrightarrow> dispatchers h' wd' = dispatchers h wd') \<and>
              arrays_count h < conns (dispatchers h' wd) \<and>
              conns (dispatchers h' wd) \<noteq> Conns (profiles h' pfl) \<and>
              pool h' wd = sort_conns (profile_pool h pfl) \<and>
              (\<forall>cs. pool (h'\<lparr>arrays := (arrays h')(Conns (profiles h' pfl) := cs)\<rparr>) wd = pool h' wd))) \<and>
         mset (sort_conns (profile_pool h pfl)) = mset (profile_pool h pfl) \<and>
         weight_descending (sort_conns (profile_pool h pfl)) \<and>
         (\<forall>w. filter (\<lambda>c. Weight c = w) (sort_conns (profile_pool h pfl)) =
              filter (\<lambda>c. Weight c = w) (profile_pool h pfl)) \<and>
         (weight_descending (profile_pool h pfl) \<longrightarrow>
            sort_conns (profile_pool h pfl) = profile_pool h pfl)"
proof -
  have new: "\<exists>h' d err.
            newDispatcher mw h pfl = Inr (h', d, err) \<and>
            profiles h' = profiles h \<and>
            profile_pool h' pfl = sort_conns (profile_pool h pfl) \<and>
            (\<forall>a. a \<le> arrays_count h \<and> a \<noteq> Conns (profiles h pfl) \<longrightarrow> arrays h' a = arrays h a) \<and>
            (\<forall>wd'. wd' \<le> dispatchers_count h \<longrightarrow> dispatchers h' wd' = dispatchers h wd') \<and>
            (d \<noteq> nil \<longrightarrow>
               arrays_count h < conns (dispatchers h' d) \<and>
               conns (dispatchers h' d) \<noteq> Conns (profiles h' pfl) \<and>
               pool h' d = sort_conns (profile_pool h pfl) \<and>
               (\<forall>cs. pool (h'\<lparr>arrays := (arrays h')(Conns (profiles h' pfl) := cs)\<rparr>) d = pool h' d))"
  proof (cases "Strategy (profiles h pfl) = mw")
    case True
    show ?thesis
      unfolding newDispatcher_weight[OF assms(1) True]
      using assms(2) by (auto simp: profile_pool_def pool_def)
  next
    case False
    show ?thesis
      unfolding newDispatcher_unsupported[OF assms(1) False]
      by (simp add: profile_pool_def Sort_fields)
  qed
  have set: "wd \<noteq> nil \<longrightarrow>
           (\<exists>h'. SetProfile h wd pfl = Inr h' \<and>
              profiles h' = profiles h \<and>
              profile_pool h' pfl = sort_conns (profile_pool h pfl) \<and>
              (\<forall>a. a \<le> arrays_count h \<and> a \<noteq> Conns (profiles h pfl) \<longrightarrow> arrays h' a = arrays h a) \<and>
              (\<forall>wd'. wd' \<noteq> wd \<longrightarrow> dispatchers h' wd' = dispatchers h wd') \<and>
              arrays_count h < conns (dispatchers h' wd) \<and>
              conns (dispatchers h' wd) \<noteq> Conns (profiles h' pfl) \<and>
              pool h' wd = sort_conns (profile_pool h pfl) \<and>
              (\<forall>cs. pool (h'\<lparr>arrays := (arrays h')(Conns (profiles h' pfl) := cs)\<rparr>) wd = pool h' wd))"
  proof
    assume wd: "wd \<noteq> nil"
    show "\<exists>h'. SetProfile h wd pfl = Inr h' \<and>
              profiles h' = profiles h \<and>
              profile_pool h' pfl = sort_conns (profile_pool h pfl) \<and>
              (\<forall>a. a \<le> arrays_count h \<and> a \<noteq> Conns (profiles h pfl) \<longrightarrow> arrays h' a = arrays h a) \<and>
              (\<forall>wd'. wd' \<noteq> wd \<longrightarrow> dispatchers h' wd' = dispatchers h wd') \<and>
              arrays_count h < conns (dispatchers h' wd) \<and>
              conns (dispatchers h' wd) \<noteq> Conns (profiles h' pfl) \<and>
              pool h' wd = sort_conns (profile_pool h pfl) \<and>
              (\<forall>cs. pool (h'\<lparr>arrays := (arrays h')(Conns (profiles h' pfl) := cs)\<rparr>) wd = pool h' wd)"
      unfolding SetProfile_result[OF assms(1) wd]
      using assms(2) by (auto simp: profile_pool_def pool_def)
  qed
  from new set show ?thesis
    using mset_sort_conns[of "profile_pool h pfl"]
      descending_sort_conns[of "profile_pool h pfl"]
      stable_sort_conns[of _ "profile_pool h pfl"]
      sort_conns_descending[of "profile_pool h pfl"]
    by blast
qed

theorem profile_sorted_in_place_pool_copied_witness:
  "(4::addr) \<noteq> nil \<and> (1::addr) \<noteq> nil \<and>
   Conns (profiles example_selector_heap 4) \<le> arrays_count example_selector_heap \<and>
   profile_pool example_selector_heap 4 = [\<lparr>ID = ''D'', Weight = 5\<rparr>, \<lparr>ID = ''E'', Weight = 7\<rparr>] \<and>
   (\<exists>h' d err.
      newDispatcher ''*weight'' example_selector_heap 4 = Inr (h', d, err) \<and> d \<noteq> nil \<and>
      profiles h' = profiles example_selector_heap \<and>
      profile_pool h' 4 = [\<lparr>ID = ''E'', Weight = 7\<rparr>, \<lparr>ID = ''D'', Weight = 5\<rparr>] \<and>
      pool h' d = [\<lparr>ID = ''E'', Weight = 7\<rparr>, \<lparr>ID = ''D'', Weight = 5\<rparr>] \<and>
      conns (dispatchers h' d) \<noteq> Conns (profiles h' 4)) \<and>
   (\<exists>h'.
      SetProfile example_selector_heap 1 4 = Inr h' \<and>
      profiles h' = profiles example_selector_heap \<and>
      profile_pool h' 4 = [\<lparr>ID = ''E'', Weight = 7\<rparr>, \<lparr>ID = ''D'', Weight = 5\<rparr>] \<and>
      pool h' 1 = [\<lparr>ID = ''E'', Weight = 7\<rparr>, \<lparr>ID = ''D'', Weight = 5\<rparr>] \<and>
      conns (dispatchers h' 1) \<noteq> Conns (profiles h' 4))"
proof -
  have a: "(4::addr) \<noteq> nil" and b: "(1::addr) \<noteq> nil"
    by (simp_all add: nil_def)
  have l: "Conns (profiles example_selector_heap 4) \<le> arrays_count example_selector_heap"
    by (simp add: example_selector_heap_fields example_profiles_fields)
  have p: "profile_pool example_selector_heap 4 =
      [\<lparr>ID = ''D'', Weight = 5\<rparr>, \<lparr>ID = ''E'', Weight = 7\<rparr>]"
    by (simp add: profile_pool_def example_selector_heap_fields example_profiles_fields)
  have s: "sort_conns (profile_pool example_selector_heap 4) =
      [\<lparr>ID = ''E'', Weight = 7\<rparr>, \<lparr>ID = ''D'', Weight = 5\<rparr>]"
    unfolding p by (simp add: sort_conns_def)
  have w: "Strategy (profiles example_selector_heap 4) = ''*weight''"
    by (simp add: example_selector_heap_fields example_profiles_fields)
  note t = profile_sorted_in_place_pool_copied[OF a l, of "''*weight''" 1, unfolded s]
  have new: "\<exists>h' d err.
      newDispatcher ''*weight'' example_selector_heap 4 = Inr (h', d, err) \<and> d \<noteq> nil \<and>
      profiles h' = profiles example_selector_heap \<and>
      profile_pool h' 4 = [\<lparr>ID = ''E'', Weight = 7\<rparr>, \<lparr>ID = ''D'', Weight = 5\<rparr>] \<and>
      pool h' d = [\<lparr>ID = ''E'', Weight = 7\<rparr>, \<lparr>ID = ''D'', Weight = 5\<rparr>] \<and>
      conns (dispatchers h' d) \<noteq> Conns (profiles h' 4)"
    using t newDispatcher_weight[OF a w] by (auto simp: nil_def)
  have set: "\<exists>h'.
      SetProfile example_selector_heap 1 4 = Inr h' \<and>
      profiles h' = profiles example_selector_heap \<and>
      profile_pool h' 4 = [\<lparr>ID = ''E'', Weight = 7\<rparr>, \<lparr>ID = ''D'', Weight = 5\<rparr>] \<and>
      pool h' 1 = [\<lparr>ID = ''E'', Weight = 7\<rparr>, \<lparr>ID = ''D'', Weight = 5\<rparr>] \<and>
      conns (dispatchers h' 1) \<noteq> Conns (profiles h' 4)"
    using t b by auto
  from a b l p new set show ?thesis by blast
qed

section \<open>The size of the pool\<close>

lemma MaxConns_after_NextConnIDs:
  assumes "NextConnIDs n h wd = Inr (h', ids)"
  shows "MaxConns h' wd = MaxConns h wd"
proof -
  from NextConnIDs_Inr_cursor[OF assms] obtain j where "h' = with_cursor h wd j" ..
  then show ?thesis by (simp add: MaxConns_with_cursor)
qed

lemma SetProfile_installs:
  assumes "pfl \<noteq> nil" and "wd \<noteq> nil" and "SetProfile h wd pfl = Inr h1"
  shows "nextConnIdx (dispatchers h1 wd) = 0"
    and "pool h1 wd = sort_conns (profile_pool h pfl)"
  using assms(3) unfolding SetProfile_result[OF assms(1,2)]
  by (auto simp: pool_def)

lemma example_emptied:
  "SetProfile example_selector_heap 1 2 = Inr example_emptied_heap"
proof -
  have a: "(2::addr) \<noteq> nil" and b: "(1::addr) \<noteq> nil"
    by (simp_all add: nil_def)
  have p: "sort_conns (profile_pool example_selector_heap 2) = []"
    by (simp add: profile_pool_def example_selector_heap_fields example_profiles_fields sort_conns_def)
  show ?thesis
    unfolding SetProfile_result[OF a b] p
    by (simp add: example_emptied_heap_def example_selector_heap_fields example_profiles_fields)
qed

text \<open>
  Claim C5 as stated fails: \<^verbatim>\<open>SetProfile\<close> accepts profile 2 of the example store, which has
  no connection, and \<^verbatim>\<open>MaxConns\<close> then returns 0.
\<close>

theorem SetProfile_empty_profile_MaxConns_zero:
  "profile_pool example_selector_heap 2 = [] \<and>
   SetProfile example_selector_heap 1 2 = Inr example_emptied_heap \<and>
   MaxConns example_emptied_heap 1 = Inr 0 \<and>
   \<not> (1::int) \<le> 0"
  using example_emptied
  by (simp add: profile_pool_def example_selector_heap_fields example_profiles_fields
      MaxConns_def nil_def example_emptied_heap_def)

text \<open>
  Claim C5, as amended. \<^verbatim>\<open>MaxConns\<close> returns the number of connections of the profile
  most recently applied to the dispatcher: the profile given to the factory or to the
  latest \<^verbatim>\<open>SetProfile\<close>, also after any number of \<^verbatim>\<open>NextConnID\<close> calls in between, and for a
  clone the number its source returns. Applying a profile does not change the number of
  its connections. The integer returned is never negative, and it is at least 1 exactly
  when that profile has at least one connection.
\<close>

theorem MaxConns_counts_applied_profile:
  fixes h :: "('w::linorder) heap"
  assumes "pfl \<noteq> nil"
  shows "(Strategy (profiles h pfl) = mw \<longrightarrow>
           (\<exists>h1 d. newDispatcher mw h pfl = Inr (h1, d, None) \<and>
              MaxConns h1 d = Inr (int (length (profile_pool h pfl))) \<and>
              length (profile_pool h1 pfl) = length (profile_pool h pfl) \<and>
              (\<forall>n h2 ids. NextConnIDs n h1 d = Inr (h2, ids) \<longrightarrow>
                 MaxConns h2 d = Inr (int (length (profile_pool h pfl)))))) \<and>
         (wd \<noteq> nil \<longrightarrow>
           (\<exists>h1. SetProfile h wd pfl = Inr h1 \<and>
              MaxConns h1 wd = Inr (int (length (profile_pool h pfl))) \<and>
              length (profile_pool h1 pfl) = length (profile_pool h pfl) \<and>
              (\<forall>n h2 ids. NextConnIDs n h1 wd = Inr (h2, ids) \<longrightarrow>
                 MaxConns h2 wd = Inr (int (length (profile_pool h pfl)))))) \<and>
         (wd \<noteq> nil \<longrightarrow>
           (\<exists>h1 cl. GetInstance h wd = Inr (h1, cl) \<and> MaxConns h1 cl = MaxConns h wd)) \<and>
         0 \<le> int (length (profile_pool h pfl)) \<and>
         (1 \<le> int (length (profile_pool h pfl)) \<longleftrightarrow> profile_pool h pfl \<noteq> [])"
proof (intro conjI impI)
  assume s: "Strategy (profiles h pfl) = mw"
  let ?canon = "sort_conns (profile_pool h pfl)"
  let ?d = "Suc (dispatchers_count h)"
  let ?h1 = "h\<lparr>arrays := (arrays h)
                     (Conns (profiles h pfl) := ?canon, Suc (arrays_count h) := ?canon),
                   arrays_count := Suc (arrays_count h),
                   dispatchers := (dispatchers h)
                     (?d := \<lparr>conns = Suc (arrays_count h), nextConnIdx = 0\<rparr>),
                   dispatchers_count := ?d\<rparr>"
  have new: "newDispatcher mw h pfl = Inr (?h1, ?d, None)"
    by (rule newDispatcher_weight[OF assms s])
  have m: "MaxConns ?h1 ?d = Inr (int (length (profile_pool h pfl)))"
    by (simp add: MaxConns_def nil_def length_sort_conns)
  have l: "length (profile_pool ?h1 pfl) = length (profile_pool h pfl)"
    by (simp add: profile_pool_def length_sort_conns)
  have later: "\<forall>n h2 ids. NextConnIDs n ?h1 ?d = Inr (h2, ids) \<longrightarrow>
      MaxConns h2 ?d = Inr (int (length (profile_pool h pfl)))"
    using MaxConns_after_NextConnIDs m by metis
  from new m l later
  show "\<exists>h1 d. newDispatcher mw h pfl = Inr (h1, d, None) \<and>
              MaxConns h1 d = Inr (int (length (profile_pool h pfl))) \<and>
              length (profile_pool h1 pfl) = length (profile_pool h pfl) \<and>
              (\<forall>n h2 ids. NextConnIDs n h1 d = Inr (h2, ids) \<longrightarrow>
                 MaxConns h2 d = Inr (int (length (profile_pool h pfl))))"
    by blast
next
  assume wd: "wd \<noteq> nil"
  let ?canon = "sort_conns (profile_pool h pfl)"
  let ?h1 = "h\<lparr>arrays := (arrays h)
                 (Conns (profiles h pfl) := ?canon, Suc (arrays_count h) := ?canon),
               arrays_count := Suc (arrays_count h),
               dispatchers := (dispatchers h)
                 (wd := \<lparr>conns = Suc (arrays_count h), nextConnIdx = 0\<rparr>)\<rparr>"
  have set: "SetProfile h wd pfl = Inr ?h1"
    by (rule SetProfile_result[OF assms wd])
  have m: "MaxConns ?h1 wd = Inr (int (length (profile_pool h pfl)))"
    using wd by (simp add: MaxConns_def length_sort_conns)
  have l: "length (profile_pool ?h1 pfl) = length (profile_pool h pfl)"
    by (simp add: profile_pool_def length_sort_conns)
  have later: "\<forall>n h2 ids. NextConnIDs n ?h1 wd = Inr (h2, ids) \<longrightarrow>
      MaxConns h2 wd = Inr (int (length (profile_pool h pfl)))"
    using MaxConns_after_NextConnIDs m by metis
  from set m l later
  show "\<exists>h1. SetProfile h wd pfl = Inr h1 \<and>
              MaxConns h1 wd = Inr (int (length (profile_pool h pfl))) \<and>
              length (profile_pool h1 pfl) = length (profile_pool h pfl) \<and>
              (\<forall>n h2 ids. NextConnIDs n h1 wd = Inr (h2, ids) \<longrightarrow>
                 MaxConns h2 wd = Inr (int (length (profile_pool h pfl))))"
    by blast
next
  assume wd: "wd \<noteq> nil"
  show "\<exists>h1 cl. GetInstance h wd = Inr (h1, cl) \<and> MaxConns h1 cl = MaxConns h wd"
    unfolding GetInstance_result[OF wd]
    using wd by (simp add: MaxConns_def nil_def pool_def)
next
  show "0 \<le> int (length (profile_pool h pfl))" by simp
next
  show "1 \<le> int (length (profile_pool h pfl)) \<longleftrightarrow> profile_pool h pfl \<noteq> []"
    by (cases "profile_pool h pfl") simp_all
qed

theorem MaxConns_counts_applied_profile_witness:
  "(4::addr) \<noteq> nil \<and> (1::addr) \<noteq> nil \<and>
   Strategy (profiles example_selector_heap 4) = ''*weight'' \<and>
   length (profile_pool example_selector_heap 4) = 2 \<and>
   (\<exists>h1 d. newDispatcher ''*weight'' example_selector_heap 4 = Inr (h1, d, None) \<and>
      MaxConns h1 d = Inr 2) \<and>
   (\<exists>h1. SetProfile example_selector_heap 1 4 = Inr h1 \<and> MaxConns h1 1 = Inr 2 \<and>
      (\<exists>h2. NextConnIDs 3 h1 1 = Inr (h2, [''E'', ''D'', ''E'']) \<and> MaxConns h2 1 = Inr 2)) \<and>
   (\<exists>h1 cl. GetInstance example_selector_heap 1 = Inr (h1, cl) \<and> MaxConns h1 cl = Inr 3)"
proof -
  have a: "(4::addr) \<noteq> nil" and b: "(1::addr) \<noteq> nil"
    by (simp_all add: nil_def)
  have w: "Strategy (profiles example_selector_heap 4) = ''*weight''"
    by (simp add: example_selector_heap_fields example_profiles_fields)
  have p: "profile_pool example_selector_heap 4 =
      [\<lparr>ID = ''D'', Weight = 5\<rparr>, \<lparr>ID = ''E'', Weight = 7\<rparr>]"
    by (simp add: profile_pool_def example_selector_heap_fields example_profiles_fields)
  have l: "length (profile_pool example_selector_heap 4) = 2"
    unfolding p by simp
  have m: "MaxConns example_selector_heap 1 = Inr 3"
    using b by (simp add: MaxConns_def example_selector_heap_fields)
  note t = MaxConns_counts_applied_profile[OF a, of example_selector_heap "''*weight''" 1,
      unfolded l]
  from t w have new: "\<exists>h1 d. newDispatcher ''*weight'' example_selector_heap 4 = Inr (h1, d, None) \<and>
      MaxConns h1 d = Inr 2"
    by auto
  from t b obtain h1 where set: "SetProfile example_selector_heap 1 4 = Inr h1"
    and m1: "MaxConns h1 1 = Inr 2"
    and later: "\<And>n h2 ids. NextConnIDs n h1 1 = Inr (h2, ids) \<Longrightarrow> MaxConns h2 1 = Inr 2"
    by auto
  have s: "sort_conns (profile_pool example_selector_heap 4) =
      [\<lparr>ID = ''E'', Weight = 7\<rparr>, \<lparr>ID = ''D'', Weight = 5\<rparr>]"
    unfolding p by (simp add: sort_conns_def)
  from SetProfile_installs[OF a b set]
  have c1: "nextConnIdx (dispatchers h1 1) = 0"
    and p1: "pool h1 1 = [\<lparr>ID = ''E'', Weight = 7\<rparr>, \<lparr>ID = ''D'', Weight = 5\<rparr>]"
    unfolding s by auto
  have ok: "cursor_ok h1 1" unfolding cursor_ok_def c1 p1 by simp
  have three: "NextConnIDs 3 h1 1 =
      Inr (with_cursor h1 1 1, [''E'', ''D'', ''E''])"
    unfolding NextConnIDs_in_range[OF b ok] c1 p1 by (simp add: upt_conv_Cons)
  from later[OF three] three
  have "\<exists>h2. NextConnIDs 3 h1 1 = Inr (h2, [''E'', ''D'', ''E'']) \<and> MaxConns h2 1 = Inr 2"
    by blast
  with set m1 have sp: "\<exists>h1. SetProfile example_selector_heap 1 4 = Inr h1 \<and> MaxConns h1 1 = Inr 2 \<and>
      (\<exists>h2. NextConnIDs 3 h1 1 = Inr (h2, [''E'', ''D'', ''E'']) \<and> MaxConns h2 1 = Inr 2)"
    by blast
  from t b m have gi: "\<exists>h1 cl. GetInstance example_selector_heap 1 = Inr (h1, cl) \<and> MaxConns h1 cl = Inr 3"
    by auto
  from a b w l new sp gi show ?thesis by blast
qed

section \<open>Cursors in range\<close>

lemma cursor_ok_at_start:
  assumes "nextConnIdx (dispatchers h wd) = 0" and "pool h wd \<noteq> []"
  shows "cursor_ok h wd"
  using assms by (simp add: cursor_ok_def)

lemma cursor_ok_nonempty: "cursor_ok h wd \<Longrightarrow> pool h wd \<noteq> []"
  by (cases "pool h wd") (auto simp: cursor_ok_def)

lemma NextConnIDs_return:
  assumes "wd \<noteq> nil" and "cursor_ok h wd"
  shows "\<exists>h' ids. NextConnIDs n h wd = Inr (h', ids) \<and> length ids = n \<and> cursor_ok h' wd"
proof -
  from assms(2) have "0 < int (length (pool h wd))"
    unfolding cursor_ok_def by linarith
  then have "cursor_ok (with_cursor h wd
      ((nextConnIdx (dispatchers h wd) + int n) mod int (length (pool h wd)))) wd"
    by (simp add: cursor_ok_with_cursor)
  with NextConnIDs_in_range[OF assms, of n] show ?thesis by simp
qed

lemma NextConnID_empty_pool:
  assumes "wd \<noteq> nil" and "pool h wd = []"
  shows "NextConnID h wd = Inl IndexOutOfRange"
proof -
  from assms(2) have "\<not> cursor_ok h wd" by (simp add: cursor_ok_def)
  with assms(1) show ?thesis by (rule NextConnID_out_of_range)
qed

section \<open>The cursor invariant\<close>

lemma selectors_okI:
  assumes "\<And>wd. 1 \<le> wd \<Longrightarrow> wd \<le> dispatchers_count h \<Longrightarrow>
      conns (dispatchers h wd) \<le> arrays_count h \<and> cursor_ok h wd"
  shows "selectors_ok h"
  using assms by (simp add: selectors_ok_def)

lemma selectors_okD:
  assumes "selectors_ok h" and "live h wd"
  shows "conns (dispatchers h wd) \<le> arrays_count h" and "cursor_ok h wd"
  using assms by (auto simp: selectors_ok_def live_def nil_def)

lemma cursor_ok_same_length:
  assumes "cursor_ok h wd"
    and "nextConnIdx (dispatchers h' wd) = nextConnIdx (dispatchers h wd)"
    and "length (pool h' wd) = length (pool h wd)"
  shows "cursor_ok h' wd"
  using assms by (simp add: cursor_ok_def)

lemma newDispatcher_preserves:
  fixes h :: "('w::linorder) heap"
  assumes "selectors_ok h" and "pfl \<noteq> nil" and "profile_pool h pfl \<noteq> []"
  shows "\<exists>h' d err. newDispatcher mw h pfl = Inr (h', d, err) \<and> selectors_ok h'"
proof (cases "Strategy (profiles h pfl) = mw")
  case True
  let ?canon = "sort_conns (profile_pool h pfl)"
  let ?d = "Suc (dispatchers_count h)"
  let ?h1 = "h\<lparr>arrays := (arrays h)
                     (Conns (profiles h pfl) := ?canon, Suc (arrays_count h) := ?canon),
                   arrays_count := Suc (arrays_count h),
                   dispatchers := (dispatchers h)
                     (?d := \<lparr>conns = Suc (arrays_count h), nextConnIdx = 0\<rparr>),
                   dispatchers_count := ?d\<rparr>"
  have new: "newDispatcher mw h pfl = Inr (?h1, ?d, None)"
    by (rule newDispatcher_weight[OF assms(2) True])
  have ne: "?canon \<noteq> []" using assms(3) by (simp add: sort_conns_eq_Nil)
  have "selectors_ok ?h1"
  proof (rule selectors_okI)
    fix wd assume wd: "1 \<le> wd" "wd \<le> dispatchers_count ?h1"
    show "conns (dispatchers ?h1 wd) \<le> arrays_count ?h1 \<and> cursor_ok ?h1 wd"
    proof (cases "wd = ?d")
      case True
      then show ?thesis using ne by (simp add: cursor_ok_def pool_def)
    next
      case False
      with wd have l: "live h wd" by (simp add: live_def nil_def)
      note ok = selectors_okD[OF assms(1) l]
      have len: "length (pool ?h1 wd) = length (pool h wd)"
        using False ok(1) by (simp add: pool_def profile_pool_def length_sort_conns)
      have "cursor_ok ?h1 wd"
        using ok(2) _ len by (rule cursor_ok_same_length) (simp add: False)
      then show ?thesis using False ok(1) by simp
    qed
  qed
  with new show ?thesis by blast
next
  case False
  let ?h1 = "Sort h (Conns (profiles h pfl))"
  have new: "newDispatcher mw h pfl = Inr (?h1, nil,
      Some (''unsupported dispatch strategy: <'' @ Strategy (profiles h pfl) @ ''>''))"
    by (rule newDispatcher_unsupported[OF assms(2) False])
  have "selectors_ok ?h1"
  proof (rule selectors_okI)
    fix wd assume wd: "1 \<le> wd" "wd \<le> dispatchers_count ?h1"
    then have l: "live h wd" by (simp add: live_def nil_def Sort_fields)
    note ok = selectors_okD[OF assms(1) l]
    have len: "length (pool ?h1 wd) = length (pool h wd)"
      by (simp add: pool_def Sort_fields length_sort_conns)
    have "cursor_ok ?h1 wd"
      using ok(2) _ len by (rule cursor_ok_same_length) (simp add: Sort_fields)
    then show "conns (dispatchers ?h1 wd) \<le> arrays_count ?h1 \<and> cursor_ok ?h1 wd"
      using ok(1) by (simp add: Sort_fields)
  qed
  with new show ?thesis by blast
qed

lemma SetProfile_preserves:
  fixes h :: "('w::linorder) heap"
  assumes "selectors_ok h" and "live h wd" and "pfl \<noteq> nil" and "profile_pool h pfl \<noteq> []"
  shows "\<exists>h'. SetProfile h wd pfl = Inr h' \<and> selectors_ok h'"
proof -
  let ?canon = "sort_conns (profile_pool h pfl)"
  let ?h1 = "h\<lparr>arrays := (arrays h)
                 (Conns (profiles h pfl) := ?canon, Suc (arrays_count h) := ?canon),
               arrays_count := Suc (arrays_count h),
               dispatchers := (dispatchers h)
                 (wd := \<lparr>conns = Suc (arrays_count h), nextConnIdx = 0\<rparr>)\<rparr>"
  from assms(2) have wdn: "wd \<noteq> nil" by (simp add: live_def)
  have set: "SetProfile h wd pfl = Inr ?h1"
    by (rule SetProfile_result[OF assms(3) wdn])
  have ne: "?canon \<noteq> []" using assms(4) by (simp add: sort_conns_eq_Nil)
  have "selectors_ok ?h1"
  proof (rule selectors_okI)
    fix wd' assume wd': "1 \<le> wd'" "wd' \<le> dispatchers_count ?h1"
    show "conns (dispatchers ?h1 wd') \<le> arrays_count ?h1 \<and> cursor_ok ?h1 wd'"
    proof (cases "wd' = wd")
      case True
      then show ?thesis using ne by (simp add: cursor_ok_def pool_def)
    next
      case False
      from wd' have l: "live h wd'" by (simp add: live_def nil_def)
      note ok = selectors_okD[OF assms(1) l]
      have len: "length (pool ?h1 wd') = length (pool h wd')"
        using False ok(1) by (simp add: pool_def profile_pool_def length_sort_conns)
      have "cursor_ok ?h1 wd'"
        using ok(2) _ len by (rule cursor_ok_same_length) (simp add: False)
      then show ?thesis using False ok(1) by simp
    qed
  qed
  with set show ?thesis by blast
qed

lemma GetInstance_preserves:
  assumes "selectors_ok h" and "live h wd"
  shows "\<exists>h' d. GetInstance h wd = Inr (h', d) \<and> selectors_ok h'"
proof -
  let ?d = "Suc (dispatchers_count h)"
  let ?h1 = "h\<lparr>arrays := (arrays h)(Suc (arrays_count h) := pool h wd),
                  arrays_count := Suc (arrays_count h),
                  dispatchers := (dispatchers h)
                     (?d := \<lparr>conns = Suc (arrays_count h), nextConnIdx = 0\<rparr>),
                  dispatchers_count := ?d\<rparr>"
  from assms(2) have wdn: "wd \<noteq> nil" by (simp add: live_def)
  have get: "GetInstance h wd = Inr (?h1, ?d)"
    by (rule GetInstance_result[OF wdn])
  have ne: "pool h wd \<noteq> []"
    using selectors_okD(2)[OF assms] by (rule cursor_ok_nonempty)
  have "selectors_ok ?h1"
  proof (rule selectors_okI)
    fix wd' assume wd': "1 \<le> wd'" "wd' \<le> dispatchers_count ?h1"
    show "conns (dispatchers ?h1 wd') \<le> arrays_count ?h1 \<and> cursor_ok ?h1 wd'"
    proof (cases "wd' = ?d")
      case True
      then show ?thesis using ne by (simp add: cursor_ok_def pool_def)
    next
      case False
      with wd' have l: "live h wd'" by (simp add: live_def nil_def)
      note ok = selectors_okD[OF assms(1) l]
      have len: "length (pool ?h1 wd') = length (pool h wd')"
        using False ok(1) by (simp add: pool_def)
      have "cursor_ok ?h1 wd'"
        using ok(2) _ len by (rule cursor_ok_same_length) (simp add: False)
      then show ?thesis using False ok(1) by simp
    qed
  qed
  with get show ?thesis by blast
qed

lemma NextConnID_preserves:
  assumes "selectors_ok h" and "live h wd"
  shows "\<exists>h' c. NextConnID h wd = Inr (h', c) \<and> selectors_ok h'"
proof -
  from assms(2) have wdn: "wd \<noteq> nil" by (simp add: live_def)
  note okwd = selectors_okD[OF assms]
  let ?j = "(nextConnIdx (dispatchers h wd) + 1) mod int (length (pool h wd))"
  let ?h1 = "with_cursor h wd ?j"
  have nxt: "NextConnID h wd = Inr (?h1, ID (pool h wd ! nat (nextConnIdx (dispatchers h wd))))"
    by (rule NextConnID_step[OF wdn okwd(2)])
  from okwd(2) have pos: "0 < int (length (pool h wd))"
    unfolding cursor_ok_def by linarith
  have "selectors_ok ?h1"
  proof (rule selectors_okI)
    fix wd' assume wd': "1 \<le> wd'" "wd' \<le> dispatchers_count ?h1"
    then have l: "live h wd'" by (simp add: live_def nil_def with_cursor_fields)
    note ok = selectors_okD[OF assms(1) l]
    show "conns (dispatchers ?h1 wd') \<le> arrays_count ?h1 \<and> cursor_ok ?h1 wd'"
    proof (cases "wd' = wd")
      case True
      then show ?thesis using pos ok(1)
        by (simp add: cursor_ok_with_cursor with_cursor_fields)
    next
      case False
      then show ?thesis using ok
        by (simp add: cursor_ok_def pool_with_cursor with_cursor_fields)
    qed
  qed
  with nxt show ?thesis by blast
qed

lemma exec_call_preserves:
  fixes h :: "('w::linorder) heap"
  assumes "selectors_ok h" and "admissible h c"
  shows "\<exists>h'. exec_call mw h c = Inr h' \<and> selectors_ok h'"
proof (cases c)
  case (CallNewDispatcher pfl)
  with assms newDispatcher_preserves[of h pfl mw] show ?thesis by auto
next
  case (CallSetProfile wd pfl)
  with assms SetProfile_preserves[of h wd pfl] show ?thesis by auto
next
  case (CallGetInstance wd)
  with assms GetInstance_preserves[of h wd] show ?thesis by auto
next
  case (CallNextConnID wd)
  with assms NextConnID_preserves[of h wd] show ?thesis by auto
next
  case (CallMaxConns wd)
  with assms show ?thesis by (auto simp: MaxConns_def live_def)
qed

lemma exec_calls_preserve:
  fixes h :: "('w::linorder) heap"
  assumes "selectors_ok h" and "admissible_calls mw h cs"
  shows "\<exists>h'. exec_calls mw h cs = Inr h' \<and> selectors_ok h'"
  using assms
proof (induction cs arbitrary: h)
  case Nil
  then show ?case by simp
next
  case (Cons c cs)
  from Cons.prems have adm: "admissible h c" by simp
  from exec_call_preserves[OF Cons.prems(1) adm] obtain h1
    where h1: "exec_call mw h c = Inr h1" "selectors_ok h1" by blast
  with Cons.prems have "admissible_calls mw h1 cs" by simp
  from Cons.IH[OF h1(2) this] h1(1) show ?case by simp
qed

text \<open>
  Claim C7. The cursor is 0 after construction, after \<^verbatim>\<open>GetInstance\<close> (for the clone) and
  after \<^verbatim>\<open>SetProfile\<close>, which is a valid index whenever the pool is non-empty. A
  \<^verbatim>\<open>NextConnID\<close> call on a dispatcher whose cursor is in range returns, advances the cursor by
  one, wraps it to 0 at the pool's length, and leaves it in range. Hence, from a store in
  which every allocated dispatcher has a cursor in range, every sequence of calls applied
  to live dispatchers with non-empty profiles runs without a panic and ends in a store in
  which every allocated dispatcher has a cursor in range.
\<close>

theorem cursor_stays_in_range:
  fixes h :: "('w::linorder) heap"
  shows "(pfl \<noteq> nil \<and> Strategy (profiles h pfl) = mw \<longrightarrow>
           (\<exists>h' d. newDispatcher mw h pfl = Inr (h', d, None) \<and>
              nextConnIdx (dispatchers h' d) = 0 \<and>
              (profile_pool h pfl \<noteq> [] \<longrightarrow> cursor_ok h' d))) \<and>
         (wd \<noteq> nil \<longrightarrow>
           (\<exists>h' d. GetInstance h wd = Inr (h', d) \<and>
              nextConnIdx (dispatchers h' d) = 0 \<and>
              (pool h wd \<noteq> [] \<longrightarrow> cursor_ok h' d))) \<and>
         (wd \<noteq> nil \<and> pfl \<noteq> nil \<longrightarrow>
           (\<exists>h'. SetProfile h wd pfl = Inr h' \<and>
              nextConnIdx (dispatchers h' wd) = 0 \<and>
              (profile_pool h pfl \<noteq> [] \<longrightarrow> cursor_ok h' wd))) \<and>
         (wd \<noteq> nil \<and> cursor_ok h wd \<longrightarrow>
           (\<exists>h' c. NextConnID h wd = Inr (h', c) \<and> cursor_ok h' wd \<and>
              pool h' wd = pool h wd \<and>
              nextConnIdx (dispatchers h' wd) =
                (if nextConnIdx (dispatchers h wd) + 1 = int (length (pool h wd)) then 0
                 else nextConnIdx (dispatchers h wd) + 1))) \<and>
         (selectors_ok h \<and> admissible_calls mw h cs \<longrightarrow>
           (\<exists>h'. exec_calls mw h cs = Inr h' \<and> selectors_ok h'))"
proof (intro conjI impI)
  assume a: "pfl \<noteq> nil \<and> Strategy (profiles h pfl) = mw"
  show "\<exists>h' d. newDispatcher mw h pfl = Inr (h', d, None) \<and>
              nextConnIdx (dispatchers h' d) = 0 \<and>
              (profile_pool h pfl \<noteq> [] \<longrightarrow> cursor_ok h' d)"
    using a newDispatcher_weight[of pfl h mw]
    by (simp add: cursor_ok_def pool_def sort_conns_eq_Nil)
next
  assume a: "wd \<noteq> nil"
  show "\<exists>h' d. GetInstance h wd = Inr (h', d) \<and>
              nextConnIdx (dispatchers h' d) = 0 \<and>
              (pool h wd \<noteq> [] \<longrightarrow> cursor_ok h' d)"
    unfolding GetInstance_result[OF a]
    by (simp add: cursor_ok_def pool_def)
next
  assume a: "wd \<noteq> nil \<and> pfl \<noteq> nil"
  then obtain h1 where set: "SetProfile h wd pfl = Inr h1"
    using SetProfile_result[of pfl wd h] by blast
  from a have i: "nextConnIdx (dispatchers h1 wd) = 0"
      "pool h1 wd = sort_conns (profile_pool h pfl)"
    using SetProfile_installs[OF _ _ set] by blast+
  have "profile_pool h pfl \<noteq> [] \<longrightarrow> cursor_ok h1 wd"
    by (simp add: cursor_ok_def i sort_conns_eq_Nil)
  with set i(1)
  show "\<exists>h'. SetProfile h wd pfl = Inr h' \<and>
              nextConnIdx (dispatchers h' wd) = 0 \<and>
              (profile_pool h pfl \<noteq> [] \<longrightarrow> cursor_ok h' wd)"
    by blast
next
  assume a: "wd \<noteq> nil \<and> cursor_ok h wd"
  then have i: "0 \<le> nextConnIdx (dispatchers h wd)"
      "nextConnIdx (dispatchers h wd) < int (length (pool h wd))"
    by (simp_all add: cursor_ok_def)
  from a NextConnID_in_range[of wd h] i
  show "\<exists>h' c. NextConnID h wd = Inr (h', c) \<and> cursor_ok h' wd \<and>
              pool h' wd = pool h wd \<and>
              nextConnIdx (dispatchers h' wd) =
                (if nextConnIdx (dispatchers h wd) + 1 = int (length (pool h wd)) then 0
                 else nextConnIdx (dispatchers h wd) + 1)"
    by (auto simp: cursor_ok_with_cursor pool_with_cursor cursor_with_cursor)
next
  assume "selectors_ok h \<and> admissible_calls mw h cs"
  then show "\<exists>h'. exec_calls mw h cs = Inr h' \<and> selectors_ok h'"
    using exec_calls_preserve by blast
qed

lemma example_heap_selectors_ok: "selectors_ok example_heap"
  by (simp add: selectors_ok_def example_heap_fields)

lemma example_calls_admissible:
  "admissible_calls ''*weight'' example_heap
     [CallNewDispatcher 1, CallNextConnID 1, CallGetInstance 1, CallSetProfile 1 4,
      CallNextConnID 2, CallNextConnID 1, CallMaxConns 2]"
  by (simp add: newDispatcher_def SetProfile_def GetInstance_def NextConnID_def
      incrNextConnIdx_def MaxConns_def Sort_def Clone_def new_WeightDispatcher_def
      sort_conns_def clone_conn_def live_def nil_def profile_pool_def Let_def
      example_heap_def example_profiles_def)

theorem cursor_stays_in_range_witness:
  "(4::addr) \<noteq> nil \<and> (1::addr) \<noteq> nil \<and>
   Strategy (profiles example_selector_heap 4) = ''*weight'' \<and>
   profile_pool example_selector_heap 4 \<noteq> [] \<and>
   pool example_selector_heap 1 \<noteq> [] \<and>
   cursor_ok example_selector_heap 1 \<and>
   nextConnIdx (dispatchers example_selector_heap 1) = 2 \<and>
   length (pool example_selector_heap 1) = 3 \<and>
   (\<exists>h' d. newDispatcher ''*weight'' example_selector_heap 4 = Inr (h', d, None) \<and>
      nextConnIdx (dispatchers h' d) = 0 \<and> cursor_ok h' d) \<and>
   (\<exists>h' d. GetInstance example_selector_heap 1 = Inr (h', d) \<and>
      nextConnIdx (dispatchers h' d) = 0 \<and> cursor_ok h' d) \<and>
   (\<exists>h'. SetProfile example_selector_heap 1 4 = Inr h' \<and>
      nextConnIdx (dispatchers h' 1) = 0 \<and> cursor_ok h' 1) \<and>
   (\<exists>h' c. NextConnID example_selector_heap 1 = Inr (h', c) \<and> cursor_ok h' 1 \<and>
      nextConnIdx (dispatchers h' 1) = 0) \<and>
   selectors_ok example_heap \<and>
   admissible_calls ''*weight'' example_heap
     [CallNewDispatcher 1, CallNextConnID 1, CallGetInstance 1, CallSetProfile 1 4,
      CallNextConnID 2, CallNextConnID 1, CallMaxConns 2] \<and>
   (\<exists>h'. exec_calls ''*weight'' example_heap
      [CallNewDispatcher 1, CallNextConnID 1, CallGetInstance 1, CallSetProfile 1 4,
       CallNextConnID 2, CallNextConnID 1, CallMaxConns 2] = Inr h' \<and> selectors_ok h')"
proof -
  have a: "(4::addr) \<noteq> nil" and b: "(1::addr) \<noteq> nil"
    by (simp_all add: nil_def)
  have w: "Strategy (profiles example_selector_heap 4) = ''*weight''"
    by (simp add: example_selector_heap_fields example_profiles_fields)
  have p4: "profile_pool example_selector_heap 4 \<noteq> []"
    by (simp add: profile_pool_def example_selector_heap_fields example_profiles_fields)
  have ok: "cursor_ok example_selector_heap 1"
    using example_selector_cursor_ok by simp
  then have p1: "pool example_selector_heap 1 \<noteq> []"
    by (rule cursor_ok_nonempty)
  have i: "nextConnIdx (dispatchers example_selector_heap 1) = 2"
    by (simp add: example_selector_heap_fields)
  have l: "length (pool example_selector_heap 1) = 3"
    by (simp add: pool_def example_selector_heap_fields)
  note t = cursor_stays_in_range[of 4 example_selector_heap "''*weight''" 1 "[]"]
  from t a w p4
  have new: "\<exists>h' d. newDispatcher ''*weight'' example_selector_heap 4 = Inr (h', d, None) \<and>
      nextConnIdx (dispatchers h' d) = 0 \<and> cursor_ok h' d"
    by blast
  from t b p1
  have get: "\<exists>h' d. GetInstance example_selector_heap 1 = Inr (h', d) \<and>
      nextConnIdx (dispatchers h' d) = 0 \<and> cursor_ok h' d"
    by blast
  from t a b p4
  have set: "\<exists>h'. SetProfile example_selector_heap 1 4 = Inr h' \<and>
      nextConnIdx (dispatchers h' 1) = 0 \<and> cursor_ok h' 1"
    by blast
  from t b ok
  have "\<exists>h' c. NextConnID example_selector_heap 1 = Inr (h', c) \<and> cursor_ok h' 1 \<and>
      nextConnIdx (dispatchers h' 1) =
        (if nextConnIdx (dispatchers example_selector_heap 1) + 1 =
            int (length (pool example_selector_heap 1)) then 0
         else nextConnIdx (dispatchers example_selector_heap 1) + 1)"
    by blast
  then have nxt: "\<exists>h' c. NextConnID example_selector_heap 1 = Inr (h', c) \<and> cursor_ok h' 1 \<and>
      nextConnIdx (dispatchers h' 1) = 0"
    unfolding i l by simp
  from cursor_stays_in_range[of 4 example_heap "''*weight''" 1
      "[CallNewDispatcher 1, CallNextConnID 1, CallGetInstance 1, CallSetProfile 1 4,
        CallNextConnID 2, CallNextConnID 1, CallMaxConns 2]"]
    example_heap_selectors_ok example_calls_admissible
  have run: "\<exists>h'. exec_calls ''*weight'' example_heap
      [CallNewDispatcher 1, CallNextConnID 1, CallGetInstance 1, CallSetProfile 1 4,
       CallNextConnID 2, CallNextConnID 1, CallMaxConns 2] = Inr h' \<and> selectors_ok h'"
    by blast
  from a b w p4 p1 ok i l new get set nxt example_heap_selectors_ok example_calls_admissible run
  show ?thesis by blast
qed

section \<open>Clones\<close>

lemma leaves_alone_cong:
  assumes "profiles h' = profiles h" and "dispatchers h' b = dispatchers h b"
  shows "leaves_alone h' b c \<longleftrightarrow> leaves_alone h b c"
  using assms by (cases c) simp_all

lemma exec_call_leaves:
  fixes h :: "('w::linorder) heap"
  assumes "exec_call mw h c = Inr h'" and "leaves_alone h b c"
    and "b \<le> dispatchers_count h" and "conns (dispatchers h b) \<le> arrays_count h"
  shows "dispatchers h' b = dispatchers h b \<and> pool h' b = pool h b \<and>
         profiles h' = profiles h \<and>
         dispatchers_count h \<le> dispatchers_count h' \<and> arrays_count h \<le> arrays_count h'"
proof (cases c)
  case (CallNewDispatcher pfl)
  with assms(1) have pfl: "pfl \<noteq> nil"
    by (auto simp: newDispatcher_nil)
  show ?thesis
  proof (cases "Strategy (profiles h pfl) = mw")
    case True
    from assms CallNewDispatcher show ?thesis
      by (auto simp: pool_def newDispatcher_weight[OF pfl True])
  next
    case False
    from assms CallNewDispatcher show ?thesis
      by (auto simp: pool_def Sort_fields newDispatcher_unsupported[OF pfl False])
  qed
next
  case (CallSetProfile wd pfl)
  with assms(1) have n: "pfl \<noteq> nil" "wd \<noteq> nil"
    by (auto simp: SetProfile_nil)
  from assms CallSetProfile show ?thesis
    by (auto simp: pool_def SetProfile_result[OF n])
next
  case (CallGetInstance wd)
  with assms(1) have n: "wd \<noteq> nil"
    by (auto simp: GetInstance_def)
  from assms CallGetInstance show ?thesis
    by (auto simp: pool_def GetInstance_result[OF n])
next
  case (CallNextConnID wd)
  with assms(1) obtain c' where "NextConnID h wd = Inr (h', c')"
    by (auto split: sum.splits)
  then obtain j where "h' = with_cursor h wd j"
    using NextConnID_Inr_cursor by blast
  with assms(2) CallNextConnID show ?thesis
    by (simp add: with_cursor_fields pool_with_cursor)
next
  case (CallMaxConns wd)
  with assms(1) show ?thesis by (auto split: sum.splits)
qed

lemma exec_calls_leave:
  fixes h :: "('w::linorder) heap"
  assumes "exec_calls mw h cs = Inr h'" and "list_all (leaves_alone h b) cs"
    and "b \<le> dispatchers_count h" and "conns (dispatchers h b) \<le> arrays_count h"
  shows "dispatchers h' b = dispatchers h b \<and> pool h' b = pool h b"
  using assms
proof (induction cs arbitrary: h)
  case Nil
  then show ?case by simp
next
  case (Cons c cs)
  from Cons.prems(1) obtain h1 where h1: "exec_call mw h c = Inr h1"
    and rest: "exec_calls mw h1 cs = Inr h'"
    by (auto split: sum.splits)
  from Cons.prems(2) have c: "leaves_alone h b c" and cs: "list_all (leaves_alone h b) cs"
    by simp_all
  note f = exec_call_leaves[OF h1 c Cons.prems(3,4)]
  from f have same: "profiles h1 = profiles h" "dispatchers h1 b = dispatchers h b"
    by simp_all
  have cs1: "list_all (leaves_alone h1 b) cs"
    using cs by (simp add: leaves_alone_cong[OF same] list_all_iff)
  have b1: "b \<le> dispatchers_count h1" using f Cons.prems(3) by linarith
  have a1: "conns (dispatchers h1 b) \<le> arrays_count h1"
    using f Cons.prems(4) by simp
  from Cons.IH[OF rest cs1 b1 a1] f show ?case by simp
qed

text \<open>
  Claim C4. Take a live dispatcher whose cursor is in range (so its pool is non-empty)
  and whose pool is an allocated array, and let it answer any number \<open>k\<close> of
  \<^verbatim>\<open>NextConnID\<close> calls. \<^verbatim>\<open>GetInstance\<close> then returns a newly allocated dispatcher whose
  cursor is 0 and whose pool has the content of the source's pool in storage of its own;
  the source keeps its pool and its cursor. The clone's first \<^verbatim>\<open>NextConnID\<close> call returns
  the identifier of the pool's first element, whatever \<open>k\<close> was. Afterwards no sequence of
  calls that leaves the clone alone (in particular any \<^verbatim>\<open>NextConnID\<close> and \<^verbatim>\<open>SetProfile\<close>
  calls on the source) changes the clone's pool or cursor, and no sequence of calls that
  leaves the source alone changes the source's pool or cursor.
\<close>

theorem GetInstance_independent_clone:
  fixes h :: "('w::linorder) heap"
  assumes "live h src"
      and "conns (dispatchers h src) \<le> arrays_count h"
      and "cursor_ok h src"
  shows "\<exists>hk ids h' cl.
           NextConnIDs k h src = Inr (hk, ids) \<and>
           GetInstance hk src = Inr (h', cl) \<and>
           cl \<noteq> nil \<and> cl \<noteq> src \<and> \<not> live h cl \<and> live h' cl \<and>
           nextConnIdx (dispatchers h' cl) = 0 \<and>
           pool h' cl = pool h src \<and>
           arrays_count h < conns (dispatchers h' cl) \<and>
           conns (dispatchers h' cl) \<noteq> conns (dispatchers h' src) \<and>
           dispatchers h' src = dispatchers hk src \<and>
           pool h' src = pool h src \<and>
           (\<exists>h''. NextConnID h' cl = Inr (h'', ID (hd (pool h src)))) \<and>
           (\<forall>cs h''. list_all (leaves_alone h' cl) cs \<and> exec_calls mw h' cs = Inr h'' \<longrightarrow>
              dispatchers h'' cl = dispatchers h' cl \<and> pool h'' cl = pool h' cl) \<and>
           (\<forall>cs h''. list_all (leaves_alone h' src) cs \<and> exec_calls mw h' cs = Inr h'' \<longrightarrow>
              dispatchers h'' src = dispatchers h' src \<and> pool h'' src = pool h' src)"
proof -
  from assms(1) have srcn: "src \<noteq> nil" and srcl: "src \<le> dispatchers_count h"
    by (simp_all add: live_def)
  let ?j = "(nextConnIdx (dispatchers h src) + int k) mod int (length (pool h src))"
  let ?hk = "with_cursor h src ?j"
  let ?cl = "Suc (dispatchers_count h)"
  let ?h' = "?hk\<lparr>arrays := (arrays ?hk)(Suc (arrays_count ?hk) := pool ?hk src),
                  arrays_count := Suc (arrays_count ?hk),
                  dispatchers := (dispatchers ?hk)
                     (Suc (dispatchers_count ?hk) :=
                        \<lparr>conns = Suc (arrays_count ?hk), nextConnIdx = 0\<rparr>),
                  dispatchers_count := Suc (dispatchers_count ?hk)\<rparr>"
  obtain ids where run: "NextConnIDs k h src = Inr (?hk, ids)"
    using NextConnIDs_in_range[OF srcn assms(3), of k] by blast
  have get: "GetInstance ?hk src = Inr (?h', ?cl)"
    using GetInstance_result[OF srcn, of ?hk] by (simp add: with_cursor_fields)
  have ne: "pool h src \<noteq> []"
    using assms(3) by (rule cursor_ok_nonempty)
  have cl: "?cl \<noteq> nil" "?cl \<noteq> src" "\<not> live h ?cl" "live ?h' ?cl"
    using srcl by (simp_all add: live_def nil_def with_cursor_fields)
  have cur: "nextConnIdx (dispatchers ?h' ?cl) = 0"
    by (simp add: with_cursor_fields)
  have pcl: "pool ?h' ?cl = pool h src"
    by (simp add: pool_def with_cursor_fields)
  have fresh: "arrays_count h < conns (dispatchers ?h' ?cl)"
    by (simp add: with_cursor_fields)
  have dsrc: "dispatchers ?h' src = dispatchers ?hk src"
    using cl(2) by (simp add: with_cursor_fields)
  have csrc: "conns (dispatchers ?h' src) = conns (dispatchers h src)"
    using cl(2) by (simp add: with_cursor_fields)
  have distinct: "conns (dispatchers ?h' ?cl) \<noteq> conns (dispatchers ?h' src)"
    using assms(2) unfolding csrc by (simp add: with_cursor_fields)
  have psrc: "pool ?h' src = pool h src"
    using assms(2) cl(2) by (simp add: pool_def with_cursor_fields)
  have first: "\<exists>h''. NextConnID ?h' ?cl = Inr (h'', ID (hd (pool h src)))"
    using NextConnID_at_start[OF cl(1) cur] ne unfolding pcl by simp
  have indep_cl: "\<forall>cs h''. list_all (leaves_alone ?h' ?cl) cs \<and> exec_calls mw ?h' cs = Inr h'' \<longrightarrow>
      dispatchers h'' ?cl = dispatchers ?h' ?cl \<and> pool h'' ?cl = pool ?h' ?cl"
  proof (intro allI impI)
    fix cs h''
    assume a: "list_all (leaves_alone ?h' ?cl) cs \<and> exec_calls mw ?h' cs = Inr h''"
    have 1: "?cl \<le> dispatchers_count ?h'" by (simp add: with_cursor_fields)
    have 2: "conns (dispatchers ?h' ?cl) \<le> arrays_count ?h'" by (simp add: with_cursor_fields)
    from a exec_calls_leave[OF _ _ 1 2]
    show "dispatchers h'' ?cl = dispatchers ?h' ?cl \<and> pool h'' ?cl = pool ?h' ?cl"
      by blast
  qed
  have indep_src: "\<forall>cs h''. list_all (leaves_alone ?h' src) cs \<and> exec_calls mw ?h' cs = Inr h'' \<longrightarrow>
      dispatchers h'' src = dispatchers ?h' src \<and> pool h'' src = pool ?h' src"
  proof (intro allI impI)
    fix cs h''
    assume a: "list_all (leaves_alone ?h' src) cs \<and> exec_calls mw ?h' cs = Inr h''"
    have 1: "src \<le> dispatchers_count ?h'" using srcl by (simp add: with_cursor_fields)
    have 2: "conns (dispatchers ?h' src) \<le> arrays_count ?h'"
      unfolding csrc using assms(2) by (simp add: with_cursor_fields)
    from a exec_calls_leave[OF _ _ 1 2]
    show "dispatchers h'' src = dispatchers ?h' src \<and> pool h'' src = pool ?h' src"
      by blast
  qed
  from run get cl cur pcl fresh distinct dsrc psrc first indep_cl indep_src
  show ?thesis by blast
qed

lemma example_clone_built:
  "NextConnIDs 2 example_selector_heap 1 =
     Inr (with_cursor example_selector_heap 1 1, [''A'', ''B''])"
  "GetInstance (with_cursor example_selector_heap 1 1) 1 = Inr (example_clone_heap, 2)"
proof -
  have n: "(1::addr) \<noteq> nil" by (simp add: nil_def)
  have ok: "cursor_ok example_selector_heap 1"
    using example_selector_cursor_ok by simp
  have q: "pool example_selector_heap 1 =
     [\<lparr>ID = ''B'', Weight = 20\<rparr>, \<lparr>ID = ''C'', Weight = 20\<rparr>, \<lparr>ID = ''A'', Weight = 10\<rparr>]"
    by (simp add: pool_def example_selector_heap_fields)
  have i: "nextConnIdx (dispatchers example_selector_heap 1) = 2"
    by (simp add: example_selector_heap_fields)
  show "NextConnIDs 2 example_selector_heap 1 =
     Inr (with_cursor example_selector_heap 1 1, [''A'', ''B''])"
    unfolding NextConnIDs_in_range[OF n ok] q i by (simp add: upt_conv_Cons)
  show "GetInstance (with_cursor example_selector_heap 1 1) 1 = Inr (example_clone_heap, 2)"
    unfolding GetInstance_result[OF n] pool_with_cursor q
    by (simp add: example_clone_heap_def with_cursor_fields example_selector_heap_fields
        numeral_2_eq_2)
qed

lemma example_clone_heap_fields:
  "dispatchers example_clone_heap (Suc 0) = \<lparr>conns = 4, nextConnIdx = 1\<rparr>"
  "dispatchers example_clone_heap 2 = \<lparr>conns = 5, nextConnIdx = 0\<rparr>"
  "pool example_clone_heap (Suc 0) =
     [\<lparr>ID = ''B'', Weight = 20\<rparr>, \<lparr>ID = ''C'', Weight = 20\<rparr>, \<lparr>ID = ''A'', Weight = 10\<rparr>]"
  "pool example_clone_heap 2 =
     [\<lparr>ID = ''B'', Weight = 20\<rparr>, \<lparr>ID = ''C'', Weight = 20\<rparr>, \<lparr>ID = ''A'', Weight = 10\<rparr>]"
  "profiles example_clone_heap = example_profiles"
  by (simp_all add: example_clone_heap_def pool_def with_cursor_fields
      example_selector_heap_fields)

lemma example_clone_run_source:
  "\<exists>h1. exec_calls ''*weight'' example_clone_heap
       [CallNextConnID 1, CallSetProfile 1 4, CallNextConnID 1] = Inr h1 \<and>
     pool h1 1 = [\<lparr>ID = ''E'', Weight = 7\<rparr>, \<lparr>ID = ''D'', Weight = 5\<rparr>] \<and>
     nextConnIdx (dispatchers h1 1) = 1"
  by (simp add: SetProfile_def NextConnID_def incrNextConnIdx_def Sort_def Clone_def
      sort_conns_def clone_conn_def nil_def pool_def with_cursor_def Let_def
      example_clone_heap_def example_selector_heap_def example_profiles_def)

lemma example_clone_run_clone:
  "\<exists>h2. exec_calls ''*weight'' example_clone_heap
       [CallNextConnID 2, CallSetProfile 2 4] = Inr h2 \<and>
     pool h2 2 = [\<lparr>ID = ''E'', Weight = 7\<rparr>, \<lparr>ID = ''D'', Weight = 5\<rparr>]"
  by (simp add: SetProfile_def NextConnID_def incrNextConnIdx_def Sort_def Clone_def
      sort_conns_def clone_conn_def nil_def pool_def with_cursor_def Let_def
      example_clone_heap_def example_selector_heap_def example_profiles_def)

theorem GetInstance_independent_clone_witness:
  "live example_selector_heap 1 \<and>
   conns (dispatchers example_selector_heap 1) \<le> arrays_count example_selector_heap \<and>
   cursor_ok example_selector_heap 1 \<and>
   NextConnIDs 2 example_selector_heap 1 =
     Inr (with_cursor example_selector_heap 1 1, [''A'', ''B'']) \<and>
   GetInstance (with_cursor example_selector_heap 1 1) 1 = Inr (example_clone_heap, 2) \<and>
   nextConnIdx (dispatchers example_clone_heap 1) = 1 \<and>
   nextConnIdx (dispatchers example_clone_heap 2) = 0 \<and>
   pool example_clone_heap 1 =
     [\<lparr>ID = ''B'', Weight = 20\<rparr>, \<lparr>ID = ''C'', Weight = 20\<rparr>, \<lparr>ID = ''A'', Weight = 10\<rparr>] \<and>
   pool example_clone_heap 2 =
     [\<lparr>ID = ''B'', Weight = 20\<rparr>, \<lparr>ID = ''C'', Weight = 20\<rparr>, \<lparr>ID = ''A'', Weight = 10\<rparr>] \<and>
   conns (dispatchers example_clone_heap 2) \<noteq> conns (dispatchers example_clone_heap 1) \<and>
   (\<exists>h''. NextConnID example_clone_heap 2 = Inr (h'', ''B'')) \<and>
   list_all (leaves_alone example_clone_heap 2)
     [CallNextConnID 1, CallSetProfile 1 4, CallNextConnID 1] \<and>
   (\<exists>h1. exec_calls ''*weight'' example_clone_heap
        [CallNextConnID 1, CallSetProfile 1 4, CallNextConnID 1] = Inr h1 \<and>
      pool h1 1 = [\<lparr>ID = ''E'', Weight = 7\<rparr>, \<lparr>ID = ''D'', Weight = 5\<rparr>] \<and>
      nextConnIdx (dispatchers h1 1) = 1 \<and>
      pool h1 2 = pool example_clone_heap 2 \<and>
      dispatchers h1 2 = dispatchers example_clone_heap 2) \<and>
   list_all (leaves_alone example_clone_heap 1) [CallNextConnID 2, CallSetProfile 2 4] \<and>
   (\<exists>h2. exec_calls ''*weight'' example_clone_heap
        [CallNextConnID 2, CallSetProfile 2 4] = Inr h2 \<and>
      pool h2 2 = [\<lparr>ID = ''E'', Weight = 7\<rparr>, \<lparr>ID = ''D'', Weight = 5\<rparr>] \<and>
      pool h2 1 = pool example_clone_heap 1 \<and>
      dispatchers h2 1 = dispatchers example_clone_heap 1)"
proof -
  have l: "live example_selector_heap 1"
    by (simp add: live_def nil_def example_selector_heap_fields)
  have a: "conns (dispatchers example_selector_heap 1) \<le> arrays_count example_selector_heap"
    by (simp add: example_selector_heap_fields)
  have ok: "cursor_ok example_selector_heap 1"
    using example_selector_cursor_ok by simp
  have f: "nextConnIdx (dispatchers example_clone_heap 1) = 1"
      "nextConnIdx (dispatchers example_clone_heap 2) = 0"
      "pool example_clone_heap 1 =
        [\<lparr>ID = ''B'', Weight = 20\<rparr>, \<lparr>ID = ''C'', Weight = 20\<rparr>, \<lparr>ID = ''A'', Weight = 10\<rparr>]"
      "pool example_clone_heap 2 =
        [\<lparr>ID = ''B'', Weight = 20\<rparr>, \<lparr>ID = ''C'', Weight = 20\<rparr>, \<lparr>ID = ''A'', Weight = 10\<rparr>]"
      "conns (dispatchers example_clone_heap 2) \<noteq> conns (dispatchers example_clone_heap 1)"
    by (simp_all add: example_clone_heap_fields)
  have la2: "list_all (leaves_alone example_clone_heap 2)
      [CallNextConnID 1, CallSetProfile 1 4, CallNextConnID 1]"
    by (simp add: example_clone_heap_fields example_profiles_fields)
  have la1: "list_all (leaves_alone example_clone_heap 1) [CallNextConnID 2, CallSetProfile 2 4]"
    by (simp add: example_clone_heap_fields example_profiles_fields)
  have q: "hd (pool example_selector_heap 1) = \<lparr>ID = ''B'', Weight = 20\<rparr>"
    by (simp add: pool_def example_selector_heap_fields)
  from GetInstance_independent_clone[OF l a ok, of 2 "''*weight''"]
  obtain hk ids h' cl where
    r: "NextConnIDs 2 example_selector_heap 1 = Inr (hk, ids)" and
    g: "GetInstance hk 1 = Inr (h', cl)" and
    first: "\<exists>h''. NextConnID h' cl = Inr (h'', ID (hd (pool example_selector_heap 1)))" and
    icl: "\<And>cs h''. list_all (leaves_alone h' cl) cs \<Longrightarrow> exec_calls ''*weight'' h' cs = Inr h'' \<Longrightarrow>
          dispatchers h'' cl = dispatchers h' cl \<and> pool h'' cl = pool h' cl" and
    isrc: "\<And>cs h''. list_all (leaves_alone h' 1) cs \<Longrightarrow> exec_calls ''*weight'' h' cs = Inr h'' \<Longrightarrow>
          dispatchers h'' 1 = dispatchers h' 1 \<and> pool h'' 1 = pool h' 1"
    by blast
  from r example_clone_built(1) have hk: "hk = with_cursor example_selector_heap 1 1"
    by simp
  from g example_clone_built(2) have h': "h' = example_clone_heap" and cl: "cl = 2"
    unfolding hk by simp_all
  from first have first': "\<exists>h''. NextConnID example_clone_heap 2 = Inr (h'', ''B'')"
    unfolding h' cl q by simp
  from example_clone_run_source obtain h1 where
    e1: "exec_calls ''*weight'' example_clone_heap
        [CallNextConnID 1, CallSetProfile 1 4, CallNextConnID 1] = Inr h1" and
    v1: "pool h1 1 = [\<lparr>ID = ''E'', Weight = 7\<rparr>, \<lparr>ID = ''D'', Weight = 5\<rparr>]"
        "nextConnIdx (dispatchers h1 1) = 1"
    by blast
  from icl[unfolded h' cl, OF la2 e1]
  have k1: "pool h1 2 = pool example_clone_heap 2"
    "dispatchers h1 2 = dispatchers example_clone_heap 2"
    by simp_all
  from example_clone_run_clone obtain h2 where
    e2: "exec_calls ''*weight'' example_clone_heap
        [CallNextConnID 2, CallSetProfile 2 4] = Inr h2" and
    v2: "pool h2 2 = [\<lparr>ID = ''E'', Weight = 7\<rparr>, \<lparr>ID = ''D'', Weight = 5\<rparr>]"
    by blast
  from isrc[unfolded h', OF la1 e2]
  have k2: "pool h2 1 = pool example_clone_heap 1"
    "dispatchers h2 1 = dispatchers example_clone_heap 1"
    by simp_all
  from l a ok example_clone_built f first' la2 e1 v1 k1 la1 e2 v2 k2
  show ?thesis by blast
qed

section \<open>Indexing the pool\<close>

lemma selectors_validI:
  assumes "\<And>wd. 1 \<le> wd \<Longrightarrow> wd \<le> dispatchers_count h \<Longrightarrow>
      conns (dispatchers h wd) \<le> arrays_count h \<and> (pool h wd \<noteq> [] \<longrightarrow> cursor_ok h wd)"
  shows "selectors_valid h"
  using assms by (simp add: selectors_valid_def)

lemma selectors_validD:
  assumes "selectors_valid h" and "live h wd"
  shows "conns (dispatchers h wd) \<le> arrays_count h"
    and "pool h wd \<noteq> [] \<longrightarrow> cursor_ok h wd"
  using assms by (auto simp: selectors_valid_def live_def nil_def)

lemma cursor_valid_same_length:
  assumes "pool h wd \<noteq> [] \<longrightarrow> cursor_ok h wd"
    and "nextConnIdx (dispatchers h' wd) = nextConnIdx (dispatchers h wd)"
    and "length (pool h' wd) = length (pool h wd)"
  shows "pool h' wd \<noteq> [] \<longrightarrow> cursor_ok h' wd"
proof
  assume "pool h' wd \<noteq> []"
  with assms(3) have "pool h wd \<noteq> []" by auto
  with assms(1) have "cursor_ok h wd" by simp
  then show "cursor_ok h' wd" using assms(2,3) by (rule cursor_ok_same_length)
qed

lemma exec_call_valid:
  fixes h :: "('w::linorder) heap"
  assumes "selectors_valid h" and "callable h c" and "exec_call mw h c = Inr h'"
  shows "selectors_valid h'"
proof (cases c)
  case (CallNewDispatcher pfl)
  with assms(2) have pfl: "pfl \<noteq> nil" by simp
  show ?thesis
  proof (cases "Strategy (profiles h pfl) = mw")
    case True
    let ?canon = "sort_conns (profile_pool h pfl)"
    let ?d = "Suc (dispatchers_count h)"
    let ?h1 = "h\<lparr>arrays := (arrays h)
                     (Conns (profiles h pfl) := ?canon, Suc (arrays_count h) := ?canon),
                   arrays_count := Suc (arrays_count h),
                   dispatchers := (dispatchers h)
                     (?d := \<lparr>conns = Suc (arrays_count h), nextConnIdx = 0\<rparr>),
                   dispatchers_count := ?d\<rparr>"
    from assms(3) CallNewDispatcher have h': "h' = ?h1"
      by (simp add: newDispatcher_weight[OF pfl True])
    have "selectors_valid ?h1"
    proof (rule selectors_validI)
      fix wd assume wd: "1 \<le> wd" "wd \<le> dispatchers_count ?h1"
      show "conns (dispatchers ?h1 wd) \<le> arrays_count ?h1 \<and>
          (pool ?h1 wd \<noteq> [] \<longrightarrow> cursor_ok ?h1 wd)"
      proof (cases "wd = ?d")
        case True
        then show ?thesis by (simp add: cursor_ok_def pool_def)
      next
        case False
        with wd have l: "live h wd" by (simp add: live_def nil_def)
        note ok = selectors_validD[OF assms(1) l]
        have len: "length (pool ?h1 wd) = length (pool h wd)"
          using False ok(1) by (simp add: pool_def profile_pool_def length_sort_conns)
        have "pool ?h1 wd \<noteq> [] \<longrightarrow> cursor_ok ?h1 wd"
          using ok(2) _ len by (rule cursor_valid_same_length) (simp add: False)
        then show ?thesis using False ok(1) by simp
      qed
    qed
    then show ?thesis by (simp only: h')
  next
    case False
    let ?h1 = "Sort h (Conns (profiles h pfl))"
    from assms(3) CallNewDispatcher have h': "h' = ?h1"
      by (simp add: newDispatcher_unsupported[OF pfl False])
    have "selectors_valid ?h1"
    proof (rule selectors_validI)
      fix wd assume wd: "1 \<le> wd" "wd \<le> dispatchers_count ?h1"
      then have l: "live h wd" by (simp add: live_def nil_def Sort_fields)
      note ok = selectors_validD[OF assms(1) l]
      have len: "length (pool ?h1 wd) = length (pool h wd)"
        by (simp add: pool_def Sort_fields length_sort_conns)
      have "pool ?h1 wd \<noteq> [] \<longrightarrow> cursor_ok ?h1 wd"
        using ok(2) _ len by (rule cursor_valid_same_length) (simp add: Sort_fields)
      then show "conns (dispatchers ?h1 wd) \<le> arrays_count ?h1 \<and>
          (pool ?h1 wd \<noteq> [] \<longrightarrow> cursor_ok ?h1 wd)"
        using ok(1) by (simp add: Sort_fields)
    qed
    then show ?thesis by (simp only: h')
  qed
next
  case (CallSetProfile wd pfl)
  with assms(2) have n: "pfl \<noteq> nil" "wd \<noteq> nil" by (simp_all add: live_def)
  let ?canon = "sort_conns (profile_pool h pfl)"
  let ?h1 = "h\<lparr>arrays := (arrays h)
                 (Conns (profiles h pfl) := ?canon, Suc (arrays_count h) := ?canon),
               arrays_count := Suc (arrays_count h),
               dispatchers := (dispatchers h)
                 (wd := \<lparr>conns = Suc (arrays_count h), nextConnIdx = 0\<rparr>)\<rparr>"
  from assms(3) CallSetProfile have h': "h' = ?h1"
    by (simp add: SetProfile_result[OF n])
  have "selectors_valid ?h1"
  proof (rule selectors_validI)
    fix wd' assume wd': "1 \<le> wd'" "wd' \<le> dispatchers_count ?h1"
    show "conns (dispatchers ?h1 wd') \<le> arrays_count ?h1 \<and>
        (pool ?h1 wd' \<noteq> [] \<longrightarrow> cursor_ok ?h1 wd')"
    proof (cases "wd' = wd")
      case True
      then show ?thesis by (simp add: cursor_ok_def pool_def)
    next
      case False
      from wd' have l: "live h wd'" by (simp add: live_def nil_def)
      note ok = selectors_validD[OF assms(1) l]
      have len: "length (pool ?h1 wd') = length (pool h wd')"
        using False ok(1) by (simp add: pool_def profile_pool_def length_sort_conns)
      have "pool ?h1 wd' \<noteq> [] \<longrightarrow> cursor_ok ?h1 wd'"
        using ok(2) _ len by (rule cursor_valid_same_length) (simp add: False)
      then show ?thesis using False ok(1) by simp
    qed
  qed
  then show ?thesis by (simp only: h')
next
  case (CallGetInstance wd)
  with assms(2) have n: "wd \<noteq> nil" by (simp add: live_def)
  let ?d = "Suc (dispatchers_count h)"
  let ?h1 = "h\<lparr>arrays := (arrays h)(Suc (arrays_count h) := pool h wd),
                  arrays_count := Suc (arrays_count h),
                  dispatchers := (dispatchers h)
                     (?d := \<lparr>conns = Suc (arrays_count h), nextConnIdx = 0\<rparr>),
                  dispatchers_count := ?d\<rparr>"
  from assms(3) CallGetInstance have h': "h' = ?h1"
    by (simp add: GetInstance_result[OF n])
  have "selectors_valid ?h1"
  proof (rule selectors_validI)
    fix wd' assume wd': "1 \<le> wd'" "wd' \<le> dispatchers_count ?h1"
    show "conns (dispatchers ?h1 wd') \<le> arrays_count ?h1 \<and>
        (pool ?h1 wd' \<noteq> [] \<longrightarrow> cursor_ok ?h1 wd')"
    proof (cases "wd' = ?d")
      case True
      then show ?thesis by (simp add: cursor_ok_def pool_def)
    next
      case False
      with wd' have l: "live h wd'" by (simp add: live_def nil_def)
      note ok = selectors_validD[OF assms(1) l]
      have len: "length (pool ?h1 wd') = length (pool h wd')"
        using False ok(1) by (simp add: pool_def)
      have "pool ?h1 wd' \<noteq> [] \<longrightarrow> cursor_ok ?h1 wd'"
        using ok(2) _ len by (rule cursor_valid_same_length) (simp add: False)
      then show ?thesis using False ok(1) by simp
    qed
  qed
  then show ?thesis by (simp only: h')
next
  case (CallNextConnID wd)
  with assms(3) obtain c' where nxt: "NextConnID h wd = Inr (h', c')"
    by (auto split: sum.splits)
  with NextConnID_cases[of h wd] have wdn: "wd \<noteq> nil" and ok: "cursor_ok h wd"
    and h': "h' = with_cursor h wd
        ((nextConnIdx (dispatchers h wd) + 1) mod int (length (pool h wd)))"
    by auto
  from ok have pos: "0 < int (length (pool h wd))"
    unfolding cursor_ok_def by linarith
  show ?thesis
    unfolding h'
  proof (rule selectors_validI)
    let ?h1 = "with_cursor h wd
        ((nextConnIdx (dispatchers h wd) + 1) mod int (length (pool h wd)))"
    fix wd' assume wd': "1 \<le> wd'" "wd' \<le> dispatchers_count ?h1"
    then have l: "live h wd'" by (simp add: live_def nil_def with_cursor_fields)
    note v = selectors_validD[OF assms(1) l]
    show "conns (dispatchers ?h1 wd') \<le> arrays_count ?h1 \<and>
        (pool ?h1 wd' \<noteq> [] \<longrightarrow> cursor_ok ?h1 wd')"
    proof (cases "wd' = wd")
      case True
      then show ?thesis using pos v(1)
        by (simp add: cursor_ok_with_cursor with_cursor_fields)
    next
      case False
      then show ?thesis using v
        by (simp add: cursor_ok_def pool_with_cursor with_cursor_fields)
    qed
  qed
next
  case (CallMaxConns wd)
  with assms(3) have "h' = h" by (auto split: sum.splits)
  with assms(1) show ?thesis by simp
qed

lemma exec_calls_valid:
  fixes h :: "('w::linorder) heap"
  assumes "selectors_valid h" and "callable_calls mw h cs" and "exec_calls mw h cs = Inr h'"
  shows "selectors_valid h'"
  using assms
proof (induction cs arbitrary: h)
  case Nil
  then show ?case by simp
next
  case (Cons c cs)
  from Cons.prems(3) obtain h1 where h1: "exec_call mw h c = Inr h1"
    and rest: "exec_calls mw h1 cs = Inr h'"
    by (auto split: sum.splits)
  from Cons.prems(2) h1 have c: "callable h c" and cs: "callable_calls mw h1 cs"
    by simp_all
  from exec_call_valid[OF Cons.prems(1) c h1] have "selectors_valid h1" .
  from Cons.IH[OF this cs rest] show ?case .
qed

lemma selectors_valid_in_bounds:
  assumes "selectors_valid h" and "live h wd" and "pool h wd \<noteq> []"
  shows "\<exists>h' c. NextConnID h wd = Inr (h', c)"
proof -
  from selectors_validD(2)[OF assms(1,2)] assms(3) have ok: "cursor_ok h wd" by simp
  from assms(2) have "wd \<noteq> nil" by (simp add: live_def)
  from NextConnID_step[OF this ok] show ?thesis by blast
qed

lemma example_empty_selector:
  "newDispatcher ''*weight'' example_heap 2 = Inr (example_empty_selector_heap, 1, None)"
proof -
  have a: "(2::addr) \<noteq> nil" by (simp add: nil_def)
  have s: "Strategy (profiles example_heap 2) = ''*weight''"
    by (simp add: example_heap_fields example_profiles_fields)
  have p: "sort_conns (profile_pool example_heap 2) = []"
    by (simp add: profile_pool_def example_heap_fields example_profiles_fields sort_conns_def)
  show ?thesis
    unfolding newDispatcher_weight[OF a s] p
    by (simp add: example_empty_selector_heap_def example_heap_fields example_profiles_fields)
qed

text \<open>
  Claim C8 as stated fails: the factory and \<^verbatim>\<open>SetProfile\<close> both accept the empty profile 2
  of the example stores without an error and install an empty pool, and the next
  \<^verbatim>\<open>NextConnID\<close> call panics.
\<close>

theorem empty_profile_accepted_then_panic:
  "profile_pool example_heap 2 = [] \<and>
   newDispatcher ''*weight'' example_heap 2 = Inr (example_empty_selector_heap, 1, None) \<and>
   pool example_empty_selector_heap 1 = [] \<and>
   NextConnID example_empty_selector_heap 1 = Inl IndexOutOfRange \<and>
   profile_pool example_selector_heap 2 = [] \<and>
   SetProfile example_selector_heap 1 2 = Inr example_emptied_heap \<and>
   pool example_emptied_heap 1 = [] \<and>
   NextConnID example_emptied_heap 1 = Inl IndexOutOfRange"
proof -
  have n: "(1::addr) \<noteq> nil" by (simp add: nil_def)
  have p1: "pool example_empty_selector_heap 1 = []"
    by (simp add: pool_def example_empty_selector_heap_def)
  have p2: "pool example_emptied_heap 1 = []"
    by (simp add: pool_def example_emptied_heap_def)
  have q1: "profile_pool example_heap 2 = []"
    by (simp add: profile_pool_def example_heap_fields example_profiles_fields)
  have q2: "profile_pool example_selector_heap 2 = []"
    by (simp add: profile_pool_def example_selector_heap_fields example_profiles_fields)
  from q1 q2 p1 p2 example_empty_selector example_emptied
    NextConnID_empty_pool[OF n p1] NextConnID_empty_pool[OF n p2]
  show ?thesis by blast
qed

text \<open>
  Claim C8, as amended. In every store reached by calls into the package from a store
  whose dispatchers are valid, \<^verbatim>\<open>NextConnID\<close> on a live dispatcher with a non-empty pool
  indexes the pool in bounds and returns. A dispatcher whose cursor is in range answers
  any number of successive calls, one identifier each, and keeps its cursor in range. On
  an empty pool \<^verbatim>\<open>NextConnID\<close> panics with an index out of range and returns no value; it
  panics that way exactly when the cursor is not in range. The factory and \<^verbatim>\<open>SetProfile\<close>
  do not reject a profile without connections: they return normally and install an empty
  pool, on which the next \<^verbatim>\<open>NextConnID\<close> call panics. With a non-empty profile they leave
  the cursor in range.
\<close>

theorem NextConnID_in_bounds_or_panic:
  fixes h :: "('w::linorder) heap"
  assumes "wd \<noteq> nil" and "pfl \<noteq> nil"
  shows "(selectors_valid h \<and> callable_calls mw h cs \<and> exec_calls mw h cs = Inr hr \<longrightarrow>
           selectors_valid hr \<and>
           (\<forall>wd'. live hr wd' \<and> pool hr wd' \<noteq> [] \<longrightarrow>
              (\<exists>h' c. NextConnID hr wd' = Inr (h', c)))) \<and>
         (cursor_ok h wd \<longrightarrow>
           (\<forall>n. \<exists>h' ids. NextConnIDs n h wd = Inr (h', ids) \<and> length ids = n \<and> cursor_ok h' wd)) \<and>
         (pool h wd \<noteq> [] \<and> nextConnIdx (dispatchers h wd) = 0 \<longrightarrow> cursor_ok h wd) \<and>
         (pool h wd = [] \<longrightarrow> NextConnID h wd = Inl IndexOutOfRange) \<and>
         (NextConnID h wd = Inl IndexOutOfRange \<longleftrightarrow> \<not> cursor_ok h wd) \<and>
         (Strategy (profiles h pfl) = mw \<longrightarrow>
           (\<exists>h1 d. newDispatcher mw h pfl = Inr (h1, d, None) \<and> d \<noteq> nil \<and>
              (profile_pool h pfl = [] \<longrightarrow> pool h1 d = [] \<and> NextConnID h1 d = Inl IndexOutOfRange) \<and>
              (profile_pool h pfl \<noteq> [] \<longrightarrow> cursor_ok h1 d))) \<and>
         (\<exists>h1. SetProfile h wd pfl = Inr h1 \<and>
            (profile_pool h pfl = [] \<longrightarrow> pool h1 wd = [] \<and> NextConnID h1 wd = Inl IndexOutOfRange) \<and>
            (profile_pool h pfl \<noteq> [] \<longrightarrow> cursor_ok h1 wd))"
proof (intro conjI impI allI)
  assume a: "selectors_valid h \<and> callable_calls mw h cs \<and> exec_calls mw h cs = Inr hr"
  then show v: "selectors_valid hr"
    using exec_calls_valid by blast
  fix wd'
  assume "live hr wd' \<and> pool hr wd' \<noteq> []"
  with v show "\<exists>h' c. NextConnID hr wd' = Inr (h', c)"
    using selectors_valid_in_bounds by blast
next
  fix n
  assume "cursor_ok h wd"
  with assms(1) show "\<exists>h' ids. NextConnIDs n h wd = Inr (h', ids) \<and> length ids = n \<and> cursor_ok h' wd"
    by (rule NextConnIDs_return)
next
  assume "pool h wd \<noteq> [] \<and> nextConnIdx (dispatchers h wd) = 0"
  then show "cursor_ok h wd" by (simp add: cursor_ok_at_start)
next
  assume "pool h wd = []"
  with assms(1) show "NextConnID h wd = Inl IndexOutOfRange"
    by (rule NextConnID_empty_pool)
next
  show "NextConnID h wd = Inl IndexOutOfRange \<longleftrightarrow> \<not> cursor_ok h wd"
    using NextConnID_cases[of h wd] assms(1) by auto
next
  assume s: "Strategy (profiles h pfl) = mw"
  let ?canon = "sort_conns (profile_pool h pfl)"
  let ?d = "Suc (dispatchers_count h)"
  let ?h1 = "h\<lparr>arrays := (arrays h)
                     (Conns (profiles h pfl) := ?canon, Suc (arrays_count h) := ?canon),
                   arrays_count := Suc (arrays_count h),
                   dispatchers := (dispatchers h)
                     (?d := \<lparr>conns = Suc (arrays_count h), nextConnIdx = 0\<rparr>),
                   dispatchers_count := ?d\<rparr>"
  have new: "newDispatcher mw h pfl = Inr (?h1, ?d, None)"
    by (rule newDispatcher_weight[OF assms(2) s])
  have d: "?d \<noteq> nil" by (simp add: nil_def)
  have pool1: "pool ?h1 ?d = ?canon" by (simp add: pool_def)
  have cur1: "nextConnIdx (dispatchers ?h1 ?d) = 0" by simp
  have e: "profile_pool h pfl = [] \<longrightarrow> pool ?h1 ?d = [] \<and> NextConnID ?h1 ?d = Inl IndexOutOfRange"
  proof
    assume "profile_pool h pfl = []"
    then have p: "pool ?h1 ?d = []" by (simp add: pool_def sort_conns_Nil)
    with NextConnID_empty_pool[OF d p]
    show "pool ?h1 ?d = [] \<and> NextConnID ?h1 ?d = Inl IndexOutOfRange" by blast
  qed
  have ne: "profile_pool h pfl \<noteq> [] \<longrightarrow> cursor_ok ?h1 ?d"
  proof
    assume "profile_pool h pfl \<noteq> []"
    then have "pool ?h1 ?d \<noteq> []" by (simp add: pool_def sort_conns_eq_Nil)
    with cur1 show "cursor_ok ?h1 ?d" by (rule cursor_ok_at_start)
  qed
  from new d e ne
  show "\<exists>h1 d. newDispatcher mw h pfl = Inr (h1, d, None) \<and> d \<noteq> nil \<and>
              (profile_pool h pfl = [] \<longrightarrow> pool h1 d = [] \<and> NextConnID h1 d = Inl IndexOutOfRange) \<and>
              (profile_pool h pfl \<noteq> [] \<longrightarrow> cursor_ok h1 d)"
    by blast
next
  obtain h1 where set: "SetProfile h wd pfl = Inr h1"
    using SetProfile_result[OF assms(2,1)] by blast
  note i = SetProfile_installs[OF assms(2,1) set]
  have e: "profile_pool h pfl = [] \<longrightarrow> pool h1 wd = [] \<and> NextConnID h1 wd = Inl IndexOutOfRange"
  proof
    assume "profile_pool h pfl = []"
    then have p: "pool h1 wd = []" by (simp add: i(2) sort_conns_Nil)
    with NextConnID_empty_pool[OF assms(1) p]
    show "pool h1 wd = [] \<and> NextConnID h1 wd = Inl IndexOutOfRange" by blast
  qed
  have ne: "profile_pool h pfl \<noteq> [] \<longrightarrow> cursor_ok h1 wd"
  proof
    assume "profile_pool h pfl \<noteq> []"
    then have "pool h1 wd \<noteq> []" by (simp add: i(2) sort_conns_eq_Nil)
    with i(1) show "cursor_ok h1 wd" by (rule cursor_ok_at_start)
  qed
  from set e ne
  show "\<exists>h1. SetProfile h wd pfl = Inr h1 \<and>
            (profile_pool h pfl = [] \<longrightarrow> pool h1 wd = [] \<and> NextConnID h1 wd = Inl IndexOutOfRange) \<and>
            (profile_pool h pfl \<noteq> [] \<longrightarrow> cursor_ok h1 wd)"
    by blast
qed

lemma example_mixed_run:
  "\<exists>hr. exec_calls ''*weight'' example_heap
       [CallNewDispatcher 2, CallSetProfile 1 1, CallNextConnID 1, CallNewDispatcher 2] = Inr hr \<and>
     live hr 1 \<and> pool hr 1 \<noteq> [] \<and> live hr 2 \<and> pool hr 2 = []"
  by (simp add: newDispatcher_def SetProfile_def NextConnID_def incrNextConnIdx_def
      Sort_def Clone_def new_WeightDispatcher_def sort_conns_def clone_conn_def
      live_def nil_def pool_def Let_def example_heap_def example_profiles_def)

lemma example_mixed_callable:
  "callable_calls ''*weight'' example_heap
     [CallNewDispatcher 2, CallSetProfile 1 1, CallNextConnID 1, CallNewDispatcher 2]"
  by (simp add: newDispatcher_def SetProfile_def NextConnID_def incrNextConnIdx_def
      Sort_def Clone_def new_WeightDispatcher_def sort_conns_def clone_conn_def
      live_def nil_def Let_def example_heap_def example_profiles_def)

lemma example_heap_selectors_valid: "selectors_valid example_heap"
  by (simp add: selectors_valid_def example_heap_fields)

theorem NextConnID_in_bounds_or_panic_witness:
  "(1::addr) \<noteq> nil \<and> (4::addr) \<noteq> nil \<and> (2::addr) \<noteq> nil \<and>
   selectors_valid example_heap \<and>
   callable_calls ''*weight'' example_heap
     [CallNewDispatcher 2, CallSetProfile 1 1, CallNextConnID 1, CallNewDispatcher 2] \<and>
   (\<exists>hr. exec_calls ''*weight'' example_heap
        [CallNewDispatcher 2, CallSetProfile 1 1, CallNextConnID 1, CallNewDispatcher 2] = Inr hr \<and>
      selectors_valid hr \<and>
      live hr 1 \<and> pool hr 1 \<noteq> [] \<and> (\<exists>h' c. NextConnID hr 1 = Inr (h', c)) \<and>
      live hr 2 \<and> pool hr 2 = [] \<and> NextConnID hr 2 = Inl IndexOutOfRange) \<and>
   cursor_ok example_selector_heap 1 \<and>
   (\<exists>h' ids. NextConnIDs 5 example_selector_heap 1 = Inr (h', ids) \<and> length ids = 5 \<and>
      cursor_ok h' 1) \<and>
   profile_pool example_selector_heap 4 \<noteq> [] \<and>
   (\<exists>h1. SetProfile example_selector_heap 1 4 = Inr h1 \<and> cursor_ok h1 1) \<and>
   profile_pool example_selector_heap 2 = [] \<and>
   (\<exists>h1. SetProfile example_selector_heap 1 2 = Inr h1 \<and> pool h1 1 = [] \<and>
      NextConnID h1 1 = Inl IndexOutOfRange) \<and>
   Strategy (profiles example_selector_heap 2) = ''*weight'' \<and>
   (\<exists>h1 d. newDispatcher ''*weight'' example_selector_heap 2 = Inr (h1, d, None) \<and> d \<noteq> nil \<and>
      pool h1 d = [] \<and> NextConnID h1 d = Inl IndexOutOfRange)"
proof -
  have a: "(1::addr) \<noteq> nil" and b: "(4::addr) \<noteq> nil" and c: "(2::addr) \<noteq> nil"
    by (simp_all add: nil_def)
  have ok: "cursor_ok example_selector_heap 1"
    using example_selector_cursor_ok by simp
  have p4: "profile_pool example_selector_heap 4 \<noteq> []"
    by (simp add: profile_pool_def example_selector_heap_fields example_profiles_fields)
  have p2: "profile_pool example_selector_heap 2 = []"
    by (simp add: profile_pool_def example_selector_heap_fields example_profiles_fields)
  have s2: "Strategy (profiles example_selector_heap 2) = ''*weight''"
    by (simp add: example_selector_heap_fields example_profiles_fields)
  from example_mixed_run obtain hr where
    e: "exec_calls ''*weight'' example_heap
        [CallNewDispatcher 2, CallSetProfile 1 1, CallNextConnID 1, CallNewDispatcher 2] = Inr hr"
    and l1: "live hr 1" and q1: "pool hr 1 \<noteq> []" and l2: "live hr 2" and q2: "pool hr 2 = []"
    by blast
  note tr = NextConnID_in_bounds_or_panic[OF c b, of example_heap "''*weight''"
      "[CallNewDispatcher 2, CallSetProfile 1 1, CallNextConnID 1, CallNewDispatcher 2]" hr]
  from tr example_heap_selectors_valid example_mixed_callable e
  have v: "selectors_valid hr"
    and inb: "\<And>wd'. live hr wd' \<Longrightarrow> pool hr wd' \<noteq> [] \<Longrightarrow> \<exists>h' c. NextConnID hr wd' = Inr (h', c)"
    by blast+
  from NextConnID_in_bounds_or_panic[OF c b, of hr] q2
  have pan: "NextConnID hr 2 = Inl IndexOutOfRange"
    by blast
  from e v l1 q1 inb[OF l1 q1] l2 q2 pan
  have run: "\<exists>hr. exec_calls ''*weight'' example_heap
        [CallNewDispatcher 2, CallSetProfile 1 1, CallNextConnID 1, CallNewDispatcher 2] = Inr hr \<and>
      selectors_valid hr \<and>
      live hr 1 \<and> pool hr 1 \<noteq> [] \<and> (\<exists>h' c. NextConnID hr 1 = Inr (h', c)) \<and>
      live hr 2 \<and> pool hr 2 = [] \<and> NextConnID hr 2 = Inl IndexOutOfRange"
    by blast
  note t4 = NextConnID_in_bounds_or_panic[OF a b, of example_selector_heap "''*weight''"]
  note t2 = NextConnID_in_bounds_or_panic[OF a c, of example_selector_heap "''*weight''"]
  from t4 ok have five: "\<exists>h' ids. NextConnIDs 5 example_selector_heap 1 = Inr (h', ids) \<and>
      length ids = 5 \<and> cursor_ok h' 1"
    by blast
  from t4 p4 have set4: "\<exists>h1. SetProfile example_selector_heap 1 4 = Inr h1 \<and> cursor_ok h1 1"
    by blast
  from t2 p2 have set2: "\<exists>h1. SetProfile example_selector_heap 1 2 = Inr h1 \<and> pool h1 1 = [] \<and>
      NextConnID h1 1 = Inl IndexOutOfRange"
    by blast
  from t2 p2 s2 have new2: "\<exists>h1 d. newDispatcher ''*weight'' example_selector_heap 2 = Inr (h1, d, None) \<and>
      d \<noteq> nil \<and> pool h1 d = [] \<and> NextConnID h1 d = Inl IndexOutOfRange"
    by blast
  from a b c example_heap_selectors_valid example_mixed_callable run ok five p4 set4 p2 set2 s2 new2
  show ?thesis by blast
qed

end
